theory Spec2Isabelle
  imports Main "HOL-Library.Multiset"
begin

section \<open>Go values used by the graphite package\<close>

subsection \<open>Panics and errors\<close>

text \<open>
  A run-time panic of Go is a value of \<open>panic\<close>; an \<open>error\<close> is one of the error values
  the package returns. The three wrapping constructors stand for the three
  \<^verbatim>\<open>fmt.Errorf\<close> calls of the client, whose \<^verbatim>\<open>%w\<close> operand is the wrapped error
  (\<open>None\<close> where the operand is \<^verbatim>\<open>nil\<close>).
\<close>

datatype panic =
    IndexOutOfRange     \<comment> \<open>index out of range on a slice\<close>
  | NilDereference      \<comment> \<open>method call on a nil interface value\<close>
  | MakechanSize        \<comment> \<open>\<^verbatim>\<open>makechan: size out of range\<close>\<close>
  | MakesliceCap        \<comment> \<open>\<^verbatim>\<open>makeslice: cap out of range\<close>\<close>

datatype error =
    ErrNoAddress                        \<comment> \<open>\<^verbatim>\<open>graphite: no address specified for Graphite server\<close>\<close>
  | CtxErr string                       \<comment> \<open>the value of \<^verbatim>\<open>ctx.Err()\<close> once the context is done\<close>
  | WriteFailure string                 \<comment> \<open>an error returned by \<^verbatim>\<open>Conn.Write\<close>\<close>
  | ErrCancelledSubmitting error        \<comment> \<open>\<^verbatim>\<open>graphite: context cancelled while submitting: %w\<close>\<close>
  | ErrAfterTries int "error option"    \<comment> \<open>\<^verbatim>\<open>graphite: failed to send metrics after %d tries: %w\<close>\<close>
  | ErrSubmit error                     \<comment> \<open>\<^verbatim>\<open>graphite: failed to submit metrics: %w\<close>\<close>

subsection \<open>Strings\<close>

text \<open>
  A Go string is a sequence of bytes. \<open>Join\<close> and \<open>HasSuffix\<close> follow the functions of the
  same names in package \<^verbatim>\<open>strings\<close>; \<open>Sprint_int\<close> is \<^verbatim>\<open>fmt.Sprint\<close> on an
  integer: the decimal digits, after a minus sign for a negative number.
\<close>

definition newline :: char where
  "newline = CHR 0x0A"

fun Join :: "string list \<Rightarrow> string \<Rightarrow> string" where
  "Join [] sep = []"
| "Join [x] sep = x"
| "Join (x # y # ys) sep = x @ sep @ Join (y # ys) sep"

definition HasSuffix :: "string \<Rightarrow> string \<Rightarrow> bool" where
  "HasSuffix s suffix =
     (length suffix \<le> length s \<and> drop (length s - length suffix) s = suffix)"

definition digit_char :: "nat \<Rightarrow> char" where
  "digit_char d = ''0123456789'' ! d"

fun decimal :: "nat \<Rightarrow> string" where
  "decimal n = (if n < 10 then [digit_char n] else decimal (n div 10) @ [digit_char (n mod 10)])"

declare decimal.simps [simp del]

definition Sprint_int :: "int \<Rightarrow> string" where
  "Sprint_int i = (if i < 0 then CHR ''-'' # decimal (nat (- i)) else decimal (nat i))"

subsection \<open>Slices of strings over a store of backing arrays\<close>

text \<open>
  A Go slice is a header (backing array, position of the first element in it, length,
  capacity); the elements live in the backing array, which several slices may share.
  The store is the list of the backing arrays allocated so far, an array being named by
  its position in the store.
\<close>

record slice =
  s_arr :: nat
  s_off :: nat
  s_len :: nat
  s_cap :: nat

type_synonym heap = "string list list"

text \<open>
  Go keeps every slice within its backing array; a slice of capacity 0 (such as
  \<^verbatim>\<open>nil\<close>) needs no array.
\<close>

definition wf_slice :: "heap \<Rightarrow> slice \<Rightarrow> bool" where
  "wf_slice h s \<longleftrightarrow>
     s_len s \<le> s_cap s \<and>
     (0 < s_cap s \<longrightarrow> s_arr s < length h \<and> s_off s + s_cap s \<le> length (h ! s_arr s))"

text \<open>The elements a slice shows: what \<^verbatim>\<open>range\<close> over it visits.\<close>

definition slice_elems :: "heap \<Rightarrow> slice \<Rightarrow> string list" where
  "slice_elems h s = take (s_len s) (drop (s_off s) (h ! s_arr s))"

text \<open>\<^verbatim>\<open>s[i]\<close>: the bounds check is against the length, not the capacity.\<close>

definition slice_index :: "heap \<Rightarrow> slice \<Rightarrow> nat \<Rightarrow> panic + string" where
  "slice_index h s i =
     (if i < s_len s then Inr ((h ! s_arr s) ! (s_off s + i)) else Inl IndexOutOfRange)"

text \<open>\<^verbatim>\<open>s[i:]\<close>: the same array, \<open>i\<close> elements further on.\<close>

definition slice_from :: "slice \<Rightarrow> nat \<Rightarrow> panic + slice" where
  "slice_from s i =
     (if i \<le> s_len s
      then Inr \<lparr>s_arr = s_arr s, s_off = s_off s + i, s_len = s_len s - i, s_cap = s_cap s - i\<rparr>
      else Inl IndexOutOfRange)"

text \<open>
  \<^verbatim>\<open>append(s, x)\<close>. With spare capacity the element is written into the backing array
  of \<open>s\<close>, in the place just after the last element of \<open>s\<close>, and the result shares that
  array. Without, a new array is allocated, the elements are copied into it and the
  result is the only slice on it. The capacity of the new array is chosen by the
  runtime: \<open>grow\<close> is that choice (from the old capacity), and it is at least the length
  needed. Unused places of an array hold the empty string.
\<close>

definition go_append :: "(nat \<Rightarrow> nat) \<Rightarrow> heap \<Rightarrow> slice \<Rightarrow> string \<Rightarrow> heap \<times> slice" where
  "go_append grow h s x =
     (if s_len s < s_cap s
      then (h[s_arr s := (h ! s_arr s)[s_off s + s_len s := x]], s\<lparr>s_len := s_len s + 1\<rparr>)
      else
        (let c = max (s_len s + 1) (grow (s_cap s))
         in (h @ [slice_elems h s @ x # replicate (c - (s_len s + 1)) []],
             \<lparr>s_arr = length h, s_off = 0, s_len = s_len s + 1, s_cap = c\<rparr>)))"

section \<open>The metric model (graphite/metric.go)\<close>

text \<open>
  \<open>Tags\<close> is a Go map. No function of the package writes to a map, so the record holds
  its contents. A \<^verbatim>\<open>time.Time\<close> is given by its whole seconds since the Unix epoch and
  the nanoseconds within the second; \<^verbatim>\<open>Unix()\<close> reads the former.
\<close>

type_synonym tags = "string \<rightharpoonup> string"

record Time =
  unix_sec :: int
  nsec :: nat

definition Unix :: "Time \<Rightarrow> int" where
  "Unix t = unix_sec t"

record MetricMetadata =
  Name :: slice
  Tags :: tags

record Metric = MetricMetadata +
  Value :: string
  Timestamp :: Time

text \<open>
  \<^verbatim>\<open>MetricMetadata.SubMetric\<close>. \<^verbatim>\<open>strings.ToLower\<close> is the standard library's and is
  a parameter here. The function returns a pointer to a new struct, here the struct
  itself, beside the store after the \<^verbatim>\<open>append\<close>.
\<close>

definition SubMetric ::
  "(nat \<Rightarrow> nat) \<Rightarrow> (string \<Rightarrow> string) \<Rightarrow> heap \<Rightarrow> MetricMetadata \<Rightarrow> string \<Rightarrow> tags
     \<Rightarrow> heap \<times> MetricMetadata" where
  "SubMetric grow ToLower h m name tgs =
     (case go_append grow h (Name m) (ToLower name) of
        (h', s') \<Rightarrow> (h', \<lparr>Name = s', Tags = tgs\<rparr>))"

text \<open>
  The lower-casing of \<^verbatim>\<open>strings.ToLower\<close> on a string of ASCII bytes, for evaluating
  \<open>SubMetric\<close> on such names.
\<close>

definition ascii_lower_char :: "char \<Rightarrow> char" where
  "ascii_lower_char c =
     (let n = (of_char c :: nat) in if 65 \<le> n \<and> n \<le> 90 then char_of (n + 32) else c)"

definition ascii_ToLower :: "string \<Rightarrow> string" where
  "ascii_ToLower s = map ascii_lower_char s"

text \<open>
  \<^verbatim>\<open>range\<close> over a Go map visits every entry once, in an order that the language
  leaves unspecified and that the runtime varies from one loop to the next. The order
  of one such loop is a list \<open>ord\<close> of the entries; \<open>range_order\<close> says that \<open>ord\<close> is an
  order in which a loop over \<open>tgs\<close> may run.
\<close>

definition range_order :: "tags \<Rightarrow> (string \<times> string) list \<Rightarrow> bool" where
  "range_order tgs ord \<longleftrightarrow> distinct (map fst ord) \<and> map_of ord = tgs"

definition tag_clause :: "string \<times> string \<Rightarrow> string" where
  "tag_clause kv = CHR '';'' # fst kv @ CHR ''='' # snd kv"

text \<open>
  \<^verbatim>\<open>Metric.String\<close>, reading the name from the store \<open>h\<close>, with \<open>ord\<close> the order in which
  the loop over \<open>m.Tags\<close> runs.
\<close>

definition Metric_String :: "heap \<Rightarrow> (string \<times> string) list \<Rightarrow> Metric \<Rightarrow> panic + string" where
  "Metric_String h ord m =
     (case slice_index h (Name m) 0 of
        Inl p \<Rightarrow> Inl p
      | Inr n0 \<Rightarrow>
          (case slice_from (Name m) 1 of
             Inl p \<Rightarrow> Inl p
           | Inr rest \<Rightarrow>
               Inr (n0
                    @ concat (map (\<lambda>n. CHR ''.'' # n) (slice_elems h rest))
                    @ concat (map tag_clause ord)
                    @ CHR '' '' # Value m
                    @ CHR '' '' # Sprint_int (Unix (Timestamp m)))))"

section \<open>The client\<close>

subsection \<open>The stream\<close>

text \<open>
  \<open>Conn\<close> is a \<^verbatim>\<open>net.Conn\<close>, outside the package. Of the stream the client only calls
  \<^verbatim>\<open>Write\<close>, which either takes the whole buffer or fails with an error after taking the
  first \<open>n\<close> bytes of it. A stream is given by how its successive calls of \<^verbatim>\<open>Write\<close>
  end (\<open>behaviour\<close>, from the number of the call) and by what it took so far (\<open>wire\<close>,
  one entry for each call made).
\<close>

datatype write_result = WriteOk | WriteFails nat string

record conn =
  behaviour :: "nat \<Rightarrow> write_result"
  wire :: "string list"

definition conn_Write :: "conn \<Rightarrow> string \<Rightarrow> conn \<times> error option" where
  "conn_Write cn p =
     (case behaviour cn (length (wire cn)) of
        WriteOk \<Rightarrow> (cn\<lparr>wire := wire cn @ [p]\<rparr>, None)
      | WriteFails n e \<Rightarrow> (cn\<lparr>wire := wire cn @ [take n p]\<rparr>, Some (WriteFailure e)))"

subsection \<open>Options and construction\<close>

definition DefaultMaxBufferSize :: int where
  "DefaultMaxBufferSize = 1000"

definition DefaultMaxMetricsPerMessage :: int where
  "DefaultMaxMetricsPerMessage = 1"

definition DefaultMaxTries :: int where
  "DefaultMaxTries = 3"

record clientOptions =
  MaxBufferSize :: int
  MaxMetricsPerMessage :: int
  MaxTries :: int
  Conn :: "conn option"
  Addr :: string

type_synonym ClientOption = "clientOptions \<Rightarrow> clientOptions"

definition WithMaxBufferSize :: "int \<Rightarrow> ClientOption" where
  "WithMaxBufferSize maxBufferSize = (\<lambda>c. c\<lparr>MaxBufferSize := maxBufferSize\<rparr>)"

definition WithMaxMetricsPerMessage :: "int \<Rightarrow> ClientOption" where
  "WithMaxMetricsPerMessage maxMetricsPerMessage =
     (\<lambda>c. c\<lparr>MaxMetricsPerMessage := maxMetricsPerMessage\<rparr>)"

definition WithMaxTries :: "int \<Rightarrow> ClientOption" where
  "WithMaxTries maxTries = (\<lambda>c. c\<lparr>MaxTries := maxTries\<rparr>)"

definition WithConnection :: "conn option \<Rightarrow> ClientOption" where
  "WithConnection cn = (\<lambda>c. c\<lparr>Conn := cn\<rparr>)"

definition WithAddress :: "string \<Rightarrow> ClientOption" where
  "WithAddress addr = (\<lambda>c. c\<lparr>Addr := addr\<rparr>)"

text \<open>
  \<^verbatim>\<open>setDefaults\<close> writes through its receiver and returns an error or \<^verbatim>\<open>nil\<close>: here it
  returns the options as it leaves them, and the error.
\<close>

definition setDefaults :: "clientOptions \<Rightarrow> clientOptions \<times> error option" where
  "setDefaults c =
     (let c1 = (if MaxBufferSize c = 0 then c\<lparr>MaxBufferSize := DefaultMaxBufferSize\<rparr> else c);
          c2 = (if MaxMetricsPerMessage c1 = 0
                then c1\<lparr>MaxMetricsPerMessage := DefaultMaxMetricsPerMessage\<rparr> else c1);
          c3 = (if MaxTries c2 = 0 then c2\<lparr>MaxTries := DefaultMaxTries\<rparr> else c2)
      in if Conn c3 = None \<and> Addr c3 = [] then (c3, Some ErrNoAddress) else (c3, None))"

text \<open>
  The queue is a buffered channel: the samples it holds, oldest first, and its capacity.
  \<^verbatim>\<open>make(chan Metric, n)\<close> panics when \<open>n\<close> is negative or more than the runtime can
  allocate; \<open>lim\<close> is the largest capacity the runtime grants.
\<close>

record chan =
  buf :: "Metric list"
  chan_cap :: nat

definition make_chan :: "int \<Rightarrow> int \<Rightarrow> panic + chan" where
  "make_chan lim n =
     (if n < 0 \<or> lim < n then Inl MakechanSize else Inr \<lparr>buf = [], chan_cap = nat n\<rparr>)"

record client = clientOptions +
  queuedMetrics :: chan

datatype 'a outcome = Panics panic | Fails error | Ok 'a

definition no_options :: clientOptions where
  "no_options = \<lparr>MaxBufferSize = 0, MaxMetricsPerMessage = 0, MaxTries = 0, Conn = None, Addr = []\<rparr>"

definition apply_options :: "ClientOption list \<Rightarrow> clientOptions" where
  "apply_options opts = foldl (\<lambda>c opt. opt c) no_options opts"

definition NewClient :: "int \<Rightarrow> ClientOption list \<Rightarrow> client outcome" where
  "NewClient lim opts =
     (case setDefaults (apply_options opts) of
        (co, Some err) \<Rightarrow> Fails err
      | (co, None) \<Rightarrow>
          (case make_chan lim (MaxBufferSize co) of
             Inl p \<Rightarrow> Panics p
           | Inr ch \<Rightarrow>
               Ok \<lparr>MaxBufferSize = MaxBufferSize co,
                   MaxMetricsPerMessage = MaxMetricsPerMessage co,
                   MaxTries = MaxTries co, Conn = Conn co, Addr = Addr co,
                   queuedMetrics = ch\<rparr>))"

subsection \<open>Contexts and \<^verbatim>\<open>select\<close>\<close>

text \<open>
  Of a context the client reads \<^verbatim>\<open>Done()\<close> and \<^verbatim>\<open>Err()\<close>: a context is \<open>None\<close> until
  its token fires and \<open>Some e\<close> from then on, \<open>e\<close> being what \<^verbatim>\<open>Err()\<close> returns.

  A \<^verbatim>\<open>select\<close> commits to one of its cases that can proceed. When both the channel
  operation and the receive from \<^verbatim>\<open>ctx.Done()\<close> can proceed, the runtime picks one of
  the two at random: \<open>choice\<close> is that pick. When neither can proceed and there is no
  \<^verbatim>\<open>default\<close>, the goroutine waits and the \<^verbatim>\<open>select\<close> does not commit in that state.
\<close>

type_synonym ctx = "error option"

datatype choice = TakeChannel | TakeDone

text \<open>
  \<^verbatim>\<open>client.SendMetric\<close> in the state in which its \<^verbatim>\<open>select\<close> commits; \<open>None\<close> where it
  cannot commit (the queue is full and the token has not fired). The queue of a client
  has a capacity of 1 at least, so that the send can proceed exactly when the queue has
  room. The context is not \<^verbatim>\<open>nil\<close>.
\<close>

definition SendMetric ::
  "choice \<Rightarrow> ctx \<Rightarrow> client \<Rightarrow> MetricMetadata \<Rightarrow> string \<Rightarrow> Time \<Rightarrow> (client \<times> error option) option" where
  "SendMetric pk ctx c metric val timestamp =
     (let queuedMetric =
            \<lparr>Name = Name metric, Tags = Tags metric, Value = val, Timestamp = timestamp\<rparr>;
          ch = queuedMetrics c;
          sent = c\<lparr>queuedMetrics := ch\<lparr>buf := buf ch @ [queuedMetric]\<rparr>\<rparr>
      in if length (buf ch) < chan_cap ch
         then (case ctx of
                 None \<Rightarrow> Some (sent, None)
               | Some e \<Rightarrow>
                   (case pk of TakeChannel \<Rightarrow> Some (sent, None) | TakeDone \<Rightarrow> Some (c, Some e)))
         else (case ctx of None \<Rightarrow> None | Some e \<Rightarrow> Some (c, Some e)))"

subsection \<open>Writing a batch\<close>

text \<open>
  The loop of \<^verbatim>\<open>SubmitMetricsString\<close>: \<open>i\<close> is the loop counter and \<open>err\<close> the named
  result, which holds the error of the last failed write (\<^verbatim>\<open>nil\<close> before any).
\<close>

function write_tries :: "int \<Rightarrow> int \<Rightarrow> conn \<Rightarrow> string \<Rightarrow> error option \<Rightarrow> conn \<times> error option" where
  "write_tries maxTries i cn str err =
     (if i < maxTries
      then (case conn_Write cn str of
              (cn', None) \<Rightarrow> (cn', None)
            | (cn', Some e) \<Rightarrow> write_tries maxTries (i + 1) cn' str (Some e))
      else (cn, Some (ErrAfterTries maxTries err)))"
  by pat_completeness auto
termination
  by (relation "measure (\<lambda>(maxTries, i, cn, str, err). nat (maxTries - i))") auto

declare write_tries.simps [simp del]

text \<open>
  \<^verbatim>\<open>client.SubmitMetricsString\<close> (its context argument is not used). A call of \<^verbatim>\<open>Write\<close>
  on a \<^verbatim>\<open>nil\<close> \<open>Conn\<close> panics.
\<close>

definition SubmitMetricsString :: "client \<Rightarrow> string \<Rightarrow> panic + client \<times> error option" where
  "SubmitMetricsString c str0 =
     (let str = (if \<not> HasSuffix str0 [newline] then str0 @ [newline] else str0)
      in case Conn c of
           None \<Rightarrow>
             (if 0 < MaxTries c then Inl NilDereference
              else Inr (c, Some (ErrAfterTries (MaxTries c) None)))
         | Some cn \<Rightarrow>
             (case write_tries (MaxTries c) 0 cn str None of
                (cn', r) \<Rightarrow> Inr (c\<lparr>Conn := Some cn'\<rparr>, r)))"

subsection \<open>The loop of Submit\<close>

text \<open>
  \<^verbatim>\<open>Submit\<close> runs beside the producers and the owner of the token. What they do is
  given for each \<^verbatim>\<open>select\<close> of the loop, counted from the start of the run: the samples
  that producers have sent since the \<^verbatim>\<open>select\<close> before (those that find no room in
  the queue stay with their producers), whether the token has fired since, the pick
  of the runtime should both cases be able to proceed, and the order in which the
  \<^verbatim>\<open>range\<close> over the tags runs should a sample be received and serialised. The store
  of backing arrays is not written to during the run.
\<close>

record env =
  arrivals :: "Metric list"
  fires :: "error option"
  pick :: choice
  order :: "(string \<times> string) list"

record run =
  cli :: client
  token :: ctx
  selects :: nat

datatype 'a step =
    Wait                \<comment> \<open>the first \<^verbatim>\<open>select\<close> cannot commit\<close>
  | Panic panic
  | Return error run    \<comment> \<open>\<^verbatim>\<open>Submit\<close> returns the error\<close>
  | Next 'a run

definition arrive :: "chan \<Rightarrow> Metric list \<Rightarrow> chan" where
  "arrive ch ms = ch\<lparr>buf := buf ch @ take (chan_cap ch - length (buf ch)) ms\<rparr>"

definition fire :: "ctx \<Rightarrow> error option \<Rightarrow> ctx" where
  "fire ctx f = (case ctx of Some e \<Rightarrow> Some e | None \<Rightarrow> f)"

definition observe :: "env \<Rightarrow> run \<Rightarrow> run" where
  "observe e r =
     r\<lparr>cli := (cli r)\<lparr>queuedMetrics := arrive (queuedMetrics (cli r)) (arrivals e)\<rparr>,
       token := fire (token r) (fires e),
       selects := selects r + 1\<rparr>"

text \<open>
  The case \<^verbatim>\<open>metric := <-c.queuedMetrics\<close> with its body: the oldest sample leaves the
  queue, \<open>rest\<close> stays, and the line of the sample is appended to \<open>metricStrings\<close>.
\<close>

definition take_oldest :: "Metric list \<Rightarrow> run \<Rightarrow> run" where
  "take_oldest rest r = r\<lparr>cli := (cli r)\<lparr>queuedMetrics := (queuedMetrics (cli r))\<lparr>buf := rest\<rparr>\<rparr>\<rparr>"

definition receive :: "heap \<Rightarrow> env \<Rightarrow> Metric \<Rightarrow> Metric list \<Rightarrow> run \<Rightarrow> string list \<Rightarrow> string list step" where
  "receive h e metric rest r metricStrings =
     (case Metric_String h (order e) metric of
        Inl p \<Rightarrow> Panic p
      | Inr line \<Rightarrow> Next (metricStrings @ [line]) (take_oldest rest r))"

text \<open>The first \<^verbatim>\<open>select\<close> of an iteration, which has no \<^verbatim>\<open>default\<close>.\<close>

definition first_select :: "heap \<Rightarrow> (nat \<Rightarrow> env) \<Rightarrow> run \<Rightarrow> string list \<Rightarrow> string list step" where
  "first_select h sched r0 metricStrings =
     (let e = sched (selects r0); r = observe e r0
      in case (buf (queuedMetrics (cli r)), token r) of
           ([], None) \<Rightarrow> Wait
         | ([], Some err) \<Rightarrow> Return (ErrCancelledSubmitting err) r
         | (metric # rest, None) \<Rightarrow> receive h e metric rest r metricStrings
         | (metric # rest, Some err) \<Rightarrow>
             (case pick e of
                TakeChannel \<Rightarrow> receive h e metric rest r metricStrings
              | TakeDone \<Rightarrow> Return (ErrCancelledSubmitting err) r))"

text \<open>
  The inner loop \<^verbatim>\<open>for i := 1; furtherMetrics && i < c.MaxMetricsPerMessage; i++\<close>. Its
  \<^verbatim>\<open>default\<close> case sets \<open>furtherMetrics\<close> to false, which ends the loop at the next test.
\<close>

function further_loop ::
  "heap \<Rightarrow> (nat \<Rightarrow> env) \<Rightarrow> int \<Rightarrow> int \<Rightarrow> run \<Rightarrow> string list \<Rightarrow> string list step" where
  "further_loop h sched maxPerMessage i r0 metricStrings =
     (if i < maxPerMessage
      then
        (let e = sched (selects r0); r = observe e r0
         in case (buf (queuedMetrics (cli r)), token r) of
              ([], None) \<Rightarrow> Next metricStrings r
            | ([], Some err) \<Rightarrow> Return (ErrCancelledSubmitting err) r
            | (metric # rest, None) \<Rightarrow>
                (case receive h e metric rest r metricStrings of
                   Next strs r' \<Rightarrow> further_loop h sched maxPerMessage (i + 1) r' strs
                 | Wait \<Rightarrow> Wait
                 | Panic p \<Rightarrow> Panic p
                 | Return err r' \<Rightarrow> Return err r')
            | (metric # rest, Some err) \<Rightarrow>
                (case pick e of
                   TakeChannel \<Rightarrow>
                     (case receive h e metric rest r metricStrings of
                        Next strs r' \<Rightarrow> further_loop h sched maxPerMessage (i + 1) r' strs
                      | Wait \<Rightarrow> Wait
                      | Panic p \<Rightarrow> Panic p
                      | Return err r' \<Rightarrow> Return err r')
                 | TakeDone \<Rightarrow> Return (ErrCancelledSubmitting err) r))
      else Next metricStrings r0)"
  by pat_completeness auto
termination
  by (relation "measure (\<lambda>(h, sched, maxPerMessage, i, r0, metricStrings). nat (maxPerMessage - i))")
    auto

declare further_loop.simps [simp del]

text \<open>
  \<^verbatim>\<open>make([]string, 0, n)\<close>, with which an iteration starts: the empty slice, or a
  panic when \<open>n\<close> is negative or more than the runtime can allocate; \<open>slim\<close> is the
  largest capacity the runtime grants.
\<close>

definition make_strings :: "int \<Rightarrow> int \<Rightarrow> panic + string list" where
  "make_strings slim n = (if n < 0 \<or> slim < n then Inl MakesliceCap else Inr [])"

text \<open>The batch of one iteration: the lines in \<open>metricStrings\<close> when the inner loop ends.\<close>

definition form_batch :: "int \<Rightarrow> heap \<Rightarrow> (nat \<Rightarrow> env) \<Rightarrow> run \<Rightarrow> string list step" where
  "form_batch slim h sched r =
     (case make_strings slim (MaxMetricsPerMessage (cli r)) of
        Inl p \<Rightarrow> Panic p
      | Inr metricStrings \<Rightarrow>
          (case first_select h sched r metricStrings of
             Next strs r' \<Rightarrow> further_loop h sched (MaxMetricsPerMessage (cli r')) 1 r' strs
           | Wait \<Rightarrow> Wait
           | Panic p \<Rightarrow> Panic p
           | Return err r' \<Rightarrow> Return err r'))"

text \<open>One iteration of the loop of \<^verbatim>\<open>Submit\<close>.\<close>

definition Submit_iteration :: "int \<Rightarrow> heap \<Rightarrow> (nat \<Rightarrow> env) \<Rightarrow> run \<Rightarrow> unit step" where
  "Submit_iteration slim h sched r =
     (case form_batch slim h sched r of
        Next metricStrings r' \<Rightarrow>
          (case SubmitMetricsString (cli r') (Join metricStrings [newline]) of
             Inl p \<Rightarrow> Panic p
           | Inr (c', Some err) \<Rightarrow> Return (ErrSubmit err) (r'\<lparr>cli := c'\<rparr>)
           | Inr (c', None) \<Rightarrow> Next () (r'\<lparr>cli := c'\<rparr>))
      | Wait \<Rightarrow> Wait
      | Panic p \<Rightarrow> Panic p
      | Return err r' \<Rightarrow> Return err r')"

text \<open>
  The loop has no exit but its \<^verbatim>\<open>return\<close> statements, so it may run for ever:
  \<open>Submit_loop n\<close> runs at most \<open>n\<close> iterations and is \<open>Next\<close> when the loop is still
  running after them.
\<close>

fun Submit_loop :: "nat \<Rightarrow> int \<Rightarrow> heap \<Rightarrow> (nat \<Rightarrow> env) \<Rightarrow> run \<Rightarrow> unit step" where
  "Submit_loop 0 slim h sched r = Next () r"
| "Submit_loop (Suc n) slim h sched r =
     (case Submit_iteration slim h sched r of
        Next u r' \<Rightarrow> Submit_loop n slim h sched r'
      | Wait \<Rightarrow> Wait
      | Panic p \<Rightarrow> Panic p
      | Return err r' \<Rightarrow> Return err r')"

text \<open>
  \<^verbatim>\<open>client.Submit\<close>. Before the loop it starts a goroutine that copies what arrives on
  \<open>Conn\<close> to the standard error stream; that goroutine does not touch the queue, the
  token or the writing side of the stream and is left out, but for its call on a
  \<^verbatim>\<open>nil\<close> \<open>Conn\<close>, which panics.
\<close>

definition Submit :: "nat \<Rightarrow> int \<Rightarrow> heap \<Rightarrow> (nat \<Rightarrow> env) \<Rightarrow> run \<Rightarrow> unit step" where
  "Submit n slim h sched r =
     (if Conn (cli r) = None then Panic NilDereference else Submit_loop n slim h sched r)"

section \<open>Vocabulary of the statements\<close>

text \<open>
  The sample that \<open>SendMetric\<close> builds; what a call of \<^verbatim>\<open>Write\<close> returns and what the
  stream takes of the buffer, from how the call ends; what the stream takes in its next
  \<open>n\<close> calls when each is given \<open>p\<close>; the string that \<open>SubmitMetricsString\<close> writes.
\<close>

definition queued :: "MetricMetadata \<Rightarrow> string \<Rightarrow> Time \<Rightarrow> Metric" where
  "queued metric val timestamp =
     \<lparr>Name = Name metric, Tags = Tags metric, Value = val, Timestamp = timestamp\<rparr>"

definition write_error :: "write_result \<Rightarrow> error option" where
  "write_error w = (case w of WriteOk \<Rightarrow> None | WriteFails n e \<Rightarrow> Some (WriteFailure e))"

definition taken :: "write_result \<Rightarrow> string \<Rightarrow> string" where
  "taken w p = (case w of WriteOk \<Rightarrow> p | WriteFails n e \<Rightarrow> take n p)"

definition attempts :: "conn \<Rightarrow> string \<Rightarrow> nat \<Rightarrow> string list" where
  "attempts cn p n = map (\<lambda>t. taken (behaviour cn (length (wire cn) + t)) p) [0..<n]"

definition with_newline :: "string \<Rightarrow> string" where
  "with_newline str = (if HasSuffix str [newline] then str else str @ [newline])"

text \<open>
  Two states of a run have the same client when they differ at most in the samples
  that the queue holds.
\<close>

definition same_client :: "run \<Rightarrow> run \<Rightarrow> bool" where
  "same_client r r' \<longleftrightarrow>
     cli r' = (cli r)\<lparr>queuedMetrics :=
                (queuedMetrics (cli r))\<lparr>buf := buf (queuedMetrics (cli r'))\<rparr>\<rparr>"

section \<open>Example values\<close>

text \<open>
  The name \<^verbatim>\<open>["cpu","idle"]\<close> on an array of its own, the tag map \<^verbatim>\<open>{host: "a"}\<close>,
  the instant 1700000000 and the samples with these and a given value.
\<close>

definition cpu_idle_heap :: heap where
  "cpu_idle_heap = [[''cpu'', ''idle'']]"

definition cpu_idle_name :: slice where
  "cpu_idle_name = \<lparr>s_arr = 0, s_off = 0, s_len = 2, s_cap = 2\<rparr>"

definition host_a :: tags where
  "host_a = [''host'' \<mapsto> ''a'']"

definition cpu_idle :: MetricMetadata where
  "cpu_idle = \<lparr>Name = cpu_idle_name, Tags = host_a\<rparr>"

definition at_1700000000 :: Time where
  "at_1700000000 = \<lparr>unix_sec = 1700000000, nsec = 0\<rparr>"

definition cpu_idle_sample :: "string \<Rightarrow> Metric" where
  "cpu_idle_sample v =
     \<lparr>Name = cpu_idle_name, Tags = host_a, Value = v, Timestamp = at_1700000000\<rparr>"

text \<open>A sample with two tags, and one whose name is the \<^verbatim>\<open>nil\<close> slice.\<close>

definition two_tag_sample :: Metric where
  "two_tag_sample =
     \<lparr>Name = cpu_idle_name, Tags = [''a'' \<mapsto> ''1'', ''b'' \<mapsto> ''2''], Value = ''1'',
      Timestamp = at_1700000000\<rparr>"

definition nameless_sample :: Metric where
  "nameless_sample =
     \<lparr>Name = \<lparr>s_arr = 0, s_off = 0, s_len = 0, s_cap = 0\<rparr>, Tags = host_a, Value = ''1'',
      Timestamp = at_1700000000\<rparr>"

text \<open>
  A stream that takes every write, the options of a client with room for 10 samples,
  batches of 2 and 1 try, and the client that \<open>NewClient\<close> makes of them.
\<close>

definition accepting :: conn where
  "accepting = \<lparr>behaviour = (\<lambda>k. WriteOk), wire = []\<rparr>"

definition scenario_options :: "conn \<Rightarrow> ClientOption list" where
  "scenario_options cn =
     [WithMaxBufferSize 10, WithMaxMetricsPerMessage 2, WithMaxTries 1, WithConnection (Some cn)]"

definition scenario_client :: "conn \<Rightarrow> client" where
  "scenario_client cn =
     \<lparr>MaxBufferSize = 10, MaxMetricsPerMessage = 2, MaxTries = 1, Conn = Some cn, Addr = [],
      queuedMetrics = \<lparr>buf = [], chan_cap = 10\<rparr>\<rparr>"

text \<open>A client whose queue has one place, which is taken.\<close>

definition full_client :: client where
  "full_client =
     \<lparr>MaxBufferSize = 1, MaxMetricsPerMessage = 1, MaxTries = 3, Conn = Some accepting,
      Addr = [], queuedMetrics = \<lparr>buf = [cpu_idle_sample ''1''], chan_cap = 1\<rparr>\<rparr>"

text \<open>
  The line of a sample of \<open>cpu.idle\<close> with value \<open>v\<close>; surroundings in which no
  producer sends, the token does not fire and the loop over \<^verbatim>\<open>{host: "a"}\<close> runs in
  its one order.
\<close>

definition cpu_idle_line :: "string \<Rightarrow> string" where
  "cpu_idle_line v = ''cpu.idle;host=a '' @ v @ '' 1700000000''"

definition quiet :: "nat \<Rightarrow> env" where
  "quiet k = \<lparr>arrivals = [], fires = None, pick = TakeChannel, order = [(''host'', ''a'')]\<rparr>"

text \<open>
  A stream that fails every write, one that fails its first two writes, and the client
  of the scenario with three samples of \<open>cpu.idle\<close> in its queue.
\<close>

definition failing :: conn where
  "failing = \<lparr>behaviour = (\<lambda>k. WriteFails 0 ''broken pipe''), wire = []\<rparr>"

definition flaky :: conn where
  "flaky = \<lparr>behaviour = (\<lambda>k. if k < 2 then WriteFails 0 ''broken pipe'' else WriteOk), wire = []\<rparr>"

definition three_queued :: "conn \<Rightarrow> client" where
  "three_queued cn =
     (scenario_client cn)\<lparr>queuedMetrics :=
        \<lparr>buf = [cpu_idle_sample ''1'', cpu_idle_sample ''2'', cpu_idle_sample ''3''],
         chan_cap = 10\<rparr>\<rparr>"

text \<open>
  The clients that \<open>NewClient\<close> makes with \<open>MaxTries\<close> at \<open>-1\<close> on the failing
  stream, and with \<open>MaxMetricsPerMessage\<close> at \<open>-1\<close>.
\<close>

definition negative_tries_client :: client where
  "negative_tries_client =
     \<lparr>MaxBufferSize = 1000, MaxMetricsPerMessage = 1, MaxTries = - 1, Conn = Some failing,
      Addr = [], queuedMetrics = \<lparr>buf = [], chan_cap = 1000\<rparr>\<rparr>"

definition negative_batch_client :: client where
  "negative_batch_client =
     \<lparr>MaxBufferSize = 1000, MaxMetricsPerMessage = - 1, MaxTries = 3, Conn = Some accepting,
      Addr = [], queuedMetrics = \<lparr>buf = [], chan_cap = 1000\<rparr>\<rparr>"

text \<open>
  The name \<^verbatim>\<open>[]string{"gopsutil", "cpu"}\<close> of cmd/perf on an array of its own, and the
  runtime's choice of twice the old capacity for a new array.
\<close>

definition doubling :: "nat \<Rightarrow> nat" where
  "doubling c = 2 * c"

definition gopsutil_heap :: heap where
  "gopsutil_heap = [[''gopsutil'', ''cpu'']]"

definition gopsutil_cpu :: MetricMetadata where
  "gopsutil_cpu = \<lparr>Name = \<lparr>s_arr = 0, s_off = 0, s_len = 2, s_cap = 2\<rparr>, Tags = host_a\<rparr>"

section \<open>Properties of the metric model\<close>

subsection \<open>Strings and slices\<close>

lemma Join_Cons: "Join (n0 # ns) sep = n0 @ concat (map (\<lambda>n. sep @ n) ns)"
  by (induction ns arbitrary: n0) auto

lemma digit_char_not_newline: "d < 10 \<Longrightarrow> digit_char d \<noteq> newline"
proof -
  assume "d < 10"
  then have "d \<in> {0, 1, 2, 3, 4, 5, 6, 7, 8, 9}" by auto
  then show ?thesis by (auto simp: digit_char_def newline_def)
qed

lemma last_decimal: "decimal n \<noteq> [] \<and> last (decimal n) = digit_char (n mod 10)"
  by (subst decimal.simps, subst (2) decimal.simps) simp

lemma last_Sprint_int: "Sprint_int i \<noteq> [] \<and> last (Sprint_int i) \<noteq> newline"
  by (simp add: Sprint_int_def last_decimal digit_char_not_newline)

lemma Sprint_int_1700000000: "Sprint_int 1700000000 = ''1700000000''"
  by (simp add: Sprint_int_def decimal.simps digit_char_def)

lemma slice_elems_Cons:
  assumes "wf_slice h s" "0 < s_len s"
  shows "slice_elems h s = ((h ! s_arr s) ! s_off s) #
     slice_elems h \<lparr>s_arr = s_arr s, s_off = s_off s + 1, s_len = s_len s - 1, s_cap = s_cap s - 1\<rparr>"
proof -
  obtain k where k: "s_len s = Suc k" using assms(2) by (cases "s_len s") auto
  have "s_off s < length (h ! s_arr s)" using assms by (auto simp: wf_slice_def)
  then have "drop (s_off s) (h ! s_arr s)
      = ((h ! s_arr s) ! s_off s) # drop (Suc (s_off s)) (h ! s_arr s)"
    by (simp add: Cons_nth_drop_Suc)
  then show ?thesis by (simp add: slice_elems_def k)
qed

lemma cpu_idle_name_elems:
  "wf_slice cpu_idle_heap cpu_idle_name \<and> slice_elems cpu_idle_heap cpu_idle_name = [''cpu'', ''idle'']"
  by (simp add: wf_slice_def slice_elems_def cpu_idle_heap_def cpu_idle_name_def)

subsection \<open>The orders of a loop over a map\<close>

lemma range_order_set:
  assumes "range_order tgs ord"
  shows "set ord = {(k, v). tgs k = Some v}" and "distinct ord"
proof -
  have d: "distinct (map fst ord)" and m: "map_of ord = tgs"
    using assms by (simp_all add: range_order_def)
  have "(k, v) \<in> set ord \<longleftrightarrow> tgs k = Some v" for k v
    using map_of_eq_Some_iff [OF d, of k v] m by simp
  then show "set ord = {(k, v). tgs k = Some v}" by auto
  show "distinct ord" using d by (simp add: distinct_map)
qed

lemma range_order_mset:
  assumes "range_order tgs o1" "range_order tgs o2"
  shows "mset o1 = mset o2"
proof -
  have "set o1 = set o2" using assms by (simp add: range_order_set(1))
  moreover have "distinct o1" "distinct o2" using assms by (simp_all add: range_order_set(2))
  ultimately show ?thesis by (simp add: set_eq_iff_mset_eq_distinct)
qed

lemma range_order_length:
  assumes "range_order tgs ord"
  shows "length ord = card (dom tgs)"
proof -
  have d: "distinct (map fst ord)" and m: "map_of ord = tgs"
    using assms by (simp_all add: range_order_def)
  have "dom tgs = set (map fst ord)" using m dom_map_of_conv_image_fst [of ord] by simp
  then show ?thesis using distinct_card [OF d] by simp
qed

lemma distinct_set_singleton: "distinct xs \<Longrightarrow> set xs = {x} \<Longrightarrow> xs = [x]"
proof (cases xs)
  case Nil
  assume "set xs = {x}" with Nil show ?thesis by simp
next
  case (Cons y ys)
  assume d: "distinct xs" and s: "set xs = {x}"
  have "y = x" using s Cons by auto
  moreover have "set ys \<subseteq> {x}" using s Cons by auto
  moreover have "x \<notin> set ys" using d Cons \<open>y = x\<close> by simp
  ultimately have "ys = []" by (cases ys) auto
  then show ?thesis using Cons \<open>y = x\<close> by simp
qed

lemma range_order_le1:
  assumes "range_order tgs o1" "range_order tgs o2" "length o1 \<le> 1"
  shows "o1 = o2"
proof (cases o1)
  case Nil
  have "set o1 = set o2" using assms by (simp add: range_order_set(1))
  then show ?thesis using Nil by simp
next
  case (Cons x xs)
  then have o1: "o1 = [x]" using assms(3) by simp
  have "set o2 = {x}" using assms(1,2) o1 range_order_set(1) [of tgs] by fastforce
  then have "o2 = [x]"
    using range_order_set(2) [OF assms(2)] by (rule distinct_set_singleton [rotated])
  then show ?thesis using o1 by simp
qed

lemma range_order_host_a: "range_order host_a ord \<longleftrightarrow> ord = [(''host'', ''a'')]"
proof
  assume r: "range_order host_a ord"
  have "range_order host_a [(''host'', ''a'')]" by (simp add: range_order_def host_a_def)
  then show "ord = [(''host'', ''a'')]" using range_order_le1 [OF _ r, of "[(''host'', ''a'')]"] by simp
next
  assume "ord = [(''host'', ''a'')]"
  then show "range_order host_a ord" by (simp add: range_order_def host_a_def)
qed

lemma range_order_two_tags:
  "range_order [''a'' \<mapsto> ''1'', ''b'' \<mapsto> ''2''] [(''a'', ''1''), (''b'', ''2'')]
   \<and> range_order [''a'' \<mapsto> ''1'', ''b'' \<mapsto> ''2''] [(''b'', ''2''), (''a'', ''1'')]"
  by (auto simp: range_order_def fun_eq_iff)

subsection \<open>The wire line\<close>

lemma Metric_String_wf:
  assumes "wf_slice h (Name m)" "0 < s_len (Name m)"
  shows "Metric_String h ord m =
     Inr (Join (slice_elems h (Name m)) ''.'' @ concat (map tag_clause ord)
          @ '' '' @ Value m @ '' '' @ Sprint_int (Unix (Timestamp m)))"
  using assms
  by (simp add: Metric_String_def slice_index_def slice_from_def slice_elems_Cons [OF assms] Join_Cons)

text \<open>
  C5. For a Metric whose name has at least one segment, the wire line is the segments
  joined by a dot, then \<open>;key=value\<close> for each tag (each tag of the map once, in the
  order of the loop), then a space, the value, a space and the decimal Unix time in
  seconds. The line does not end in a newline.
\<close>

theorem Metric_String_wire_line:
  assumes "wf_slice h (Name m)" and "0 < s_len (Name m)" and "range_order (Tags m) ord"
  shows "\<exists>line. Metric_String h ord m = Inr line
     \<and> line = Join (slice_elems h (Name m)) ''.''
            @ concat (map (\<lambda>(key, val). '';'' @ key @ ''='' @ val) ord)
            @ '' '' @ Value m @ '' '' @ Sprint_int (Unix (Timestamp m))
     \<and> set ord = {(key, val). Tags m key = Some val} \<and> distinct ord
     \<and> line \<noteq> [] \<and> last line \<noteq> newline"
proof -
  have clause: "tag_clause = (\<lambda>(key, val). '';'' @ key @ ''='' @ val)"
    by (auto simp: tag_clause_def fun_eq_iff)
  have "last (xs @ '' '' @ Value m @ '' '' @ Sprint_int i) = last (Sprint_int i)" for xs i
    using last_Sprint_int [of i] by simp
  then show ?thesis
    using Metric_String_wf [OF assms(1,2), of ord] range_order_set [OF assms(3)]
      last_Sprint_int [of "Unix (Timestamp m)"]
    by (simp add: clause)
qed

theorem Metric_String_wire_line_witness:
  "wf_slice cpu_idle_heap (Name (cpu_idle_sample ''1''))
   \<and> 0 < s_len (Name (cpu_idle_sample ''1''))
   \<and> range_order (Tags (cpu_idle_sample ''1'')) [(''host'', ''a'')]
   \<and> Metric_String cpu_idle_heap [(''host'', ''a'')] (cpu_idle_sample ''1'')
       = Inr ''cpu.idle;host=a 1 1700000000''"
proof -
  have w: "wf_slice cpu_idle_heap (Name (cpu_idle_sample ''1''))"
    using cpu_idle_name_elems by (simp add: cpu_idle_sample_def)
  have l: "0 < s_len (Name (cpu_idle_sample ''1''))"
    by (simp add: cpu_idle_sample_def cpu_idle_name_def)
  have r: "range_order (Tags (cpu_idle_sample ''1'')) [(''host'', ''a'')]"
    by (simp add: cpu_idle_sample_def range_order_host_a)
  have e: "slice_elems cpu_idle_heap (Name (cpu_idle_sample ''1'')) = [''cpu'', ''idle'']"
    using cpu_idle_name_elems by (simp add: cpu_idle_sample_def)
  from Metric_String_wire_line [OF w l r] obtain line where
    "Metric_String cpu_idle_heap [(''host'', ''a'')] (cpu_idle_sample ''1'') = Inr line"
    "line = Join (slice_elems cpu_idle_heap (Name (cpu_idle_sample ''1''))) ''.''
            @ concat (map (\<lambda>(key, val). '';'' @ key @ ''='' @ val) [(''host'', ''a'')])
            @ '' '' @ Value (cpu_idle_sample ''1'') @ '' ''
            @ Sprint_int (Unix (Timestamp (cpu_idle_sample ''1'')))"
    by blast
  then have "Metric_String cpu_idle_heap [(''host'', ''a'')] (cpu_idle_sample ''1'')
       = Inr ''cpu.idle;host=a 1 1700000000''"
    by (simp add: e) (simp add: cpu_idle_sample_def Unix_def at_1700000000_def Sprint_int_1700000000)
  with w l r show ?thesis by simp
qed

text \<open>
  C9. \<^verbatim>\<open>Metric.String\<close> reads the first segment of the name without a test: on a
  Metric whose name has no segment it panics with an index out of range, and returns
  neither an error nor a line.
\<close>

theorem Metric_String_empty_name:
  "s_len (Name m) = 0 \<Longrightarrow> Metric_String h ord m = Inl IndexOutOfRange"
  by (simp add: Metric_String_def slice_index_def)

theorem Metric_String_empty_name_witness:
  "s_len (Name nameless_sample) = 0
   \<and> Metric_String cpu_idle_heap [(''host'', ''a'')] nameless_sample = Inl IndexOutOfRange"
proof -
  have l: "s_len (Name nameless_sample) = 0" by (simp add: nameless_sample_def)
  from Metric_String_empty_name [OF l] l show ?thesis by simp
qed

text \<open>
  C2, as the code has it. Whatever the order of the loop over the tag map, the line of
  a Metric is the same text up to the tags (the dotted name), then the clause
  \<open>;key=value\<close> of each tag in the order in which the loop ran that time, then the same
  text after them (a space, the value, a space, the time). Two serialisations of one
  Metric so carry the same clauses, one for each tag of the map and none twice, and
  differ at most in the order of the clauses; they are the same line when the Metric
  has at most one tag. On a Metric without a name both panic. With two tags or more
  the order is not fixed, and it is not sorted by key.
\<close>

theorem Metric_String_same_clauses:
  assumes "range_order (Tags m) o1" and "range_order (Tags m) o2"
  shows "(s_len (Name m) = 0 \<longrightarrow>
            Metric_String h o1 m = Inl IndexOutOfRange \<and> Metric_String h o2 m = Inl IndexOutOfRange)
     \<and> (0 < s_len (Name m) \<longrightarrow>
            (\<exists>pre. Metric_String h o1 m
                      = Inr (pre @ concat (map tag_clause o1)
                               @ '' '' @ Value m @ '' '' @ Sprint_int (Unix (Timestamp m)))
                  \<and> Metric_String h o2 m
                      = Inr (pre @ concat (map tag_clause o2)
                               @ '' '' @ Value m @ '' '' @ Sprint_int (Unix (Timestamp m)))))
     \<and> mset (map tag_clause o1) = mset (map tag_clause o2)
     \<and> distinct o1 \<and> distinct o2
     \<and> set o1 = {(key, val). Tags m key = Some val}
     \<and> set o2 = {(key, val). Tags m key = Some val}
     \<and> (card (dom (Tags m)) \<le> 1 \<longrightarrow> Metric_String h o1 m = Metric_String h o2 m)"
proof -
  have panics: "Metric_String h ord m = Inl IndexOutOfRange" if "s_len (Name m) = 0" for ord
    using that by (simp add: Metric_String_def slice_index_def)
  have line: "\<exists>pre. \<forall>ord. Metric_String h ord m
                      = Inr (pre @ concat (map tag_clause ord)
                               @ '' '' @ Value m @ '' '' @ Sprint_int (Unix (Timestamp m)))"
    if "0 < s_len (Name m)"
  proof -
    let ?rest = "\<lparr>s_arr = s_arr (Name m), s_off = s_off (Name m) + 1,
                  s_len = s_len (Name m) - 1, s_cap = s_cap (Name m) - 1\<rparr>"
    let ?pre = "((h ! s_arr (Name m)) ! s_off (Name m))
                  @ concat (map (\<lambda>n. CHR ''.'' # n) (slice_elems h ?rest))"
    have "Metric_String h ord m
            = Inr (?pre @ concat (map tag_clause ord)
                     @ '' '' @ Value m @ '' '' @ Sprint_int (Unix (Timestamp m)))" for ord
      using that by (simp add: Metric_String_def slice_index_def slice_from_def)
    then show ?thesis by blast
  qed
  have "mset o1 = mset o2" using assms by (rule range_order_mset)
  then have clauses: "mset (map tag_clause o1) = mset (map tag_clause o2)"
    by (metis mset_map)
  have same: "o1 = o2" if "card (dom (Tags m)) \<le> 1"
    using range_order_le1 [OF assms] range_order_length [OF assms(1)] that by simp
  show ?thesis
  proof (intro conjI impI)
    assume "s_len (Name m) = 0"
    then show "Metric_String h o1 m = Inl IndexOutOfRange"
      "Metric_String h o2 m = Inl IndexOutOfRange"
      by (simp_all add: panics)
  next
    assume "0 < s_len (Name m)"
    from line [OF this] obtain pre where
      "\<forall>ord. Metric_String h ord m
                      = Inr (pre @ concat (map tag_clause ord)
                               @ '' '' @ Value m @ '' '' @ Sprint_int (Unix (Timestamp m)))"
      by blast
    then show "\<exists>pre. Metric_String h o1 m
                      = Inr (pre @ concat (map tag_clause o1)
                               @ '' '' @ Value m @ '' '' @ Sprint_int (Unix (Timestamp m)))
                  \<and> Metric_String h o2 m
                      = Inr (pre @ concat (map tag_clause o2)
                               @ '' '' @ Value m @ '' '' @ Sprint_int (Unix (Timestamp m)))"
      by blast
  next
    show "mset (map tag_clause o1) = mset (map tag_clause o2)" by (rule clauses)
    show "distinct o1" "distinct o2" using assms by (simp_all add: range_order_set(2))
    show "set o1 = {(key, val). Tags m key = Some val}"
      "set o2 = {(key, val). Tags m key = Some val}"
      using assms by (simp_all add: range_order_set(1))
  next
    assume "card (dom (Tags m)) \<le> 1"
    then show "Metric_String h o1 m = Metric_String h o2 m" by (simp add: same)
  qed
qed

theorem Metric_String_same_clauses_witness:
  "range_order (Tags two_tag_sample) [(''a'', ''1''), (''b'', ''2'')]
   \<and> range_order (Tags two_tag_sample) [(''b'', ''2''), (''a'', ''1'')]
   \<and> 0 < s_len (Name two_tag_sample)
   \<and> (\<exists>pre. Metric_String cpu_idle_heap [(''a'', ''1''), (''b'', ''2'')] two_tag_sample
               = Inr (pre @ '';a=1;b=2'' @ '' 1 1700000000'')
           \<and> Metric_String cpu_idle_heap [(''b'', ''2''), (''a'', ''1'')] two_tag_sample
               = Inr (pre @ '';b=2;a=1'' @ '' 1 1700000000''))
   \<and> mset ['';a=1'', '';b=2''] = mset ['';b=2'', '';a=1'']
   \<and> range_order (Tags nameless_sample) [(''host'', ''a'')]
   \<and> s_len (Name nameless_sample) = 0
   \<and> card (dom (Tags nameless_sample)) \<le> 1
   \<and> Metric_String cpu_idle_heap [(''host'', ''a'')] nameless_sample = Inl IndexOutOfRange"
proof -
  have r: "range_order (Tags two_tag_sample) [(''a'', ''1''), (''b'', ''2'')]"
    "range_order (Tags two_tag_sample) [(''b'', ''2''), (''a'', ''1'')]"
    using range_order_two_tags by (simp_all add: two_tag_sample_def)
  have l: "0 < s_len (Name two_tag_sample)"
    by (simp add: two_tag_sample_def cpu_idle_name_def)
  have v: "Value two_tag_sample = ''1''" "Unix (Timestamp two_tag_sample) = 1700000000"
    by (simp_all add: two_tag_sample_def Unix_def at_1700000000_def)
  note two = Metric_String_same_clauses [OF r, of cpu_idle_heap]
  from two l obtain pre where
    "Metric_String cpu_idle_heap [(''a'', ''1''), (''b'', ''2'')] two_tag_sample
       = Inr (pre @ concat (map tag_clause [(''a'', ''1''), (''b'', ''2'')])
                @ '' '' @ Value two_tag_sample @ '' ''
                @ Sprint_int (Unix (Timestamp two_tag_sample)))"
    "Metric_String cpu_idle_heap [(''b'', ''2''), (''a'', ''1'')] two_tag_sample
       = Inr (pre @ concat (map tag_clause [(''b'', ''2''), (''a'', ''1'')])
                @ '' '' @ Value two_tag_sample @ '' ''
                @ Sprint_int (Unix (Timestamp two_tag_sample)))"
    by blast
  then have lines: "\<exists>pre. Metric_String cpu_idle_heap [(''a'', ''1''), (''b'', ''2'')] two_tag_sample
               = Inr (pre @ '';a=1;b=2'' @ '' 1 1700000000'')
           \<and> Metric_String cpu_idle_heap [(''b'', ''2''), (''a'', ''1'')] two_tag_sample
               = Inr (pre @ '';b=2;a=1'' @ '' 1 1700000000'')"
    by (simp add: v tag_clause_def Sprint_int_1700000000)
  from two have ms: "mset ['';a=1'', '';b=2''] = mset ['';b=2'', '';a=1'']"
    by (simp add: tag_clause_def)
  have rn: "range_order (Tags nameless_sample) [(''host'', ''a'')]"
    by (simp add: nameless_sample_def range_order_host_a)
  have ln: "s_len (Name nameless_sample) = 0" by (simp add: nameless_sample_def)
  have cn: "card (dom (Tags nameless_sample)) \<le> 1"
    by (simp add: nameless_sample_def host_a_def)
  from Metric_String_same_clauses [OF rn rn, of cpu_idle_heap] ln
  have pn: "Metric_String cpu_idle_heap [(''host'', ''a'')] nameless_sample = Inl IndexOutOfRange"
    by blast
  from r l lines ms rn ln cn pn show ?thesis by blast
qed

text \<open>The same sample, serialised with its two tags in either order.\<close>

theorem Metric_String_not_deterministic:
  "range_order (Tags two_tag_sample) [(''a'', ''1''), (''b'', ''2'')]
   \<and> range_order (Tags two_tag_sample) [(''b'', ''2''), (''a'', ''1'')]
   \<and> Metric_String cpu_idle_heap [(''a'', ''1''), (''b'', ''2'')] two_tag_sample
       = Inr ''cpu.idle;a=1;b=2 1 1700000000''
   \<and> Metric_String cpu_idle_heap [(''b'', ''2''), (''a'', ''1'')] two_tag_sample
       = Inr ''cpu.idle;b=2;a=1 1 1700000000''"
proof -
  have w: "wf_slice cpu_idle_heap (Name two_tag_sample)" "0 < s_len (Name two_tag_sample)"
    using cpu_idle_name_elems by (simp_all add: two_tag_sample_def cpu_idle_name_def)
  have e: "slice_elems cpu_idle_heap (Name two_tag_sample) = [''cpu'', ''idle'']"
    using cpu_idle_name_elems by (simp add: two_tag_sample_def)
  have v: "Value two_tag_sample = ''1''" "Unix (Timestamp two_tag_sample) = 1700000000"
    by (simp_all add: two_tag_sample_def Unix_def at_1700000000_def)
  have t: "Tags two_tag_sample = [''a'' \<mapsto> ''1'', ''b'' \<mapsto> ''2'']"
    by (simp add: two_tag_sample_def)
  show ?thesis
    using range_order_two_tags
    by (simp add: Metric_String_wf [OF w] e v t tag_clause_def Sprint_int_1700000000)
qed

section \<open>Properties of the client\<close>

subsection \<open>Construction\<close>

lemma setDefaults_fields:
  "MaxBufferSize (fst (setDefaults c)) = (if MaxBufferSize c = 0 then 1000 else MaxBufferSize c)"
  "MaxMetricsPerMessage (fst (setDefaults c))
     = (if MaxMetricsPerMessage c = 0 then 1 else MaxMetricsPerMessage c)"
  "MaxTries (fst (setDefaults c)) = (if MaxTries c = 0 then 3 else MaxTries c)"
  "Conn (fst (setDefaults c)) = Conn c"
  "Addr (fst (setDefaults c)) = Addr c"
  "snd (setDefaults c) = (if Conn c = None \<and> Addr c = [] then Some ErrNoAddress else None)"
  by (simp_all add: setDefaults_def Let_def DefaultMaxBufferSize_def
      DefaultMaxMetricsPerMessage_def DefaultMaxTries_def)

lemma NewClient_cases:
  "NewClient lim opts =
     (let given = apply_options opts; co = fst (setDefaults given)
      in if Conn given = None \<and> Addr given = [] then Fails ErrNoAddress
         else if MaxBufferSize co < 0 \<or> lim < MaxBufferSize co then Panics MakechanSize
         else Ok \<lparr>MaxBufferSize = MaxBufferSize co,
                   MaxMetricsPerMessage = MaxMetricsPerMessage co,
                   MaxTries = MaxTries co, Conn = Conn given, Addr = Addr given,
                   queuedMetrics = \<lparr>buf = [], chan_cap = nat (MaxBufferSize co)\<rparr>\<rparr>)"
proof -
  obtain co r where sd: "setDefaults (apply_options opts) = (co, r)" by (cases "setDefaults (apply_options opts)")
  have co: "co = fst (setDefaults (apply_options opts))" and r: "r = snd (setDefaults (apply_options opts))"
    using sd by simp_all
  show ?thesis
    unfolding NewClient_def sd
    by (simp add: Let_def co [symmetric] make_chan_def)
       (simp add: co r [symmetric] setDefaults_fields(4,5) setDefaults_fields(6) [of "apply_options opts", folded r])
qed

lemma apply_scenario_options:
  "apply_options (scenario_options cn)
     = \<lparr>MaxBufferSize = 10, MaxMetricsPerMessage = 2, MaxTries = 1, Conn = Some cn, Addr = []\<rparr>"
  by (simp add: apply_options_def scenario_options_def no_options_def WithMaxBufferSize_def
      WithMaxMetricsPerMessage_def WithMaxTries_def WithConnection_def)

lemma NewClient_scenario: "10 \<le> lim \<Longrightarrow> NewClient lim (scenario_options cn) = Ok (scenario_client cn)"
  by (simp add: NewClient_cases apply_scenario_options setDefaults_fields scenario_client_def)

lemma NewClient_limits:
  assumes "NewClient lim opts = Ok c"
  shows "MaxMetricsPerMessage c \<noteq> 0" and "MaxTries c \<noteq> 0" and "0 < MaxBufferSize c"
    and "0 < chan_cap (queuedMetrics c)"
proof -
  have ok: "\<not> (Conn (apply_options opts) = None \<and> Addr (apply_options opts) = [])"
    "\<not> (MaxBufferSize (fst (setDefaults (apply_options opts))) < 0)"
    and c: "c = \<lparr>MaxBufferSize = MaxBufferSize (fst (setDefaults (apply_options opts))),
        MaxMetricsPerMessage = MaxMetricsPerMessage (fst (setDefaults (apply_options opts))),
        MaxTries = MaxTries (fst (setDefaults (apply_options opts))),
        Conn = Conn (apply_options opts), Addr = Addr (apply_options opts),
        queuedMetrics =
          \<lparr>buf = [], chan_cap = nat (MaxBufferSize (fst (setDefaults (apply_options opts))))\<rparr>\<rparr>"
    using assms by (simp_all add: NewClient_cases Let_def split: if_splits)
  show "MaxMetricsPerMessage c \<noteq> 0" by (simp add: c setDefaults_fields(2))
  show "MaxTries c \<noteq> 0" by (simp add: c setDefaults_fields(3))
  have "MaxBufferSize (fst (setDefaults (apply_options opts))) \<noteq> 0"
    by (simp add: setDefaults_fields(1))
  with ok(2) show "0 < MaxBufferSize c" "0 < chan_cap (queuedMetrics c)" by (simp_all add: c)
qed

text \<open>
  C8. \<open>NewClient\<close> fails with \<open>ErrNoAddress\<close> exactly when the options leave both the
  stream and the address unset, and with no other error. In a client that it returns,
  each of the three limits is the value the options give, or the default (1000, 1, 3)
  where they give 0 or nothing; the stream and the address are as given and the queue
  is empty.
\<close>

theorem NewClient_defaults:
  "(NewClient lim opts = Fails ErrNoAddress
      \<longleftrightarrow> Conn (apply_options opts) = None \<and> Addr (apply_options opts) = [])
   \<and> (\<forall>err. NewClient lim opts = Fails err \<longrightarrow> err = ErrNoAddress)
   \<and> (\<forall>c. NewClient lim opts = Ok c \<longrightarrow>
         MaxBufferSize c = (if MaxBufferSize (apply_options opts) = 0 then 1000
                            else MaxBufferSize (apply_options opts))
       \<and> MaxMetricsPerMessage c = (if MaxMetricsPerMessage (apply_options opts) = 0 then 1
                                   else MaxMetricsPerMessage (apply_options opts))
       \<and> MaxTries c = (if MaxTries (apply_options opts) = 0 then 3
                       else MaxTries (apply_options opts))
       \<and> Conn c = Conn (apply_options opts) \<and> Addr c = Addr (apply_options opts)
       \<and> queuedMetrics c = \<lparr>buf = [], chan_cap = nat (MaxBufferSize c)\<rparr>)"
proof -
  have 1: "NewClient lim opts = Fails ErrNoAddress
      \<longleftrightarrow> Conn (apply_options opts) = None \<and> Addr (apply_options opts) = []"
    by (simp add: NewClient_cases Let_def)
  have 2: "err = ErrNoAddress" if "NewClient lim opts = Fails err" for err
    using that by (simp add: NewClient_cases Let_def split: if_splits)
  have 3: "MaxBufferSize c = (if MaxBufferSize (apply_options opts) = 0 then 1000
                            else MaxBufferSize (apply_options opts))
       \<and> MaxMetricsPerMessage c = (if MaxMetricsPerMessage (apply_options opts) = 0 then 1
                                   else MaxMetricsPerMessage (apply_options opts))
       \<and> MaxTries c = (if MaxTries (apply_options opts) = 0 then 3
                       else MaxTries (apply_options opts))
       \<and> Conn c = Conn (apply_options opts) \<and> Addr c = Addr (apply_options opts)
       \<and> queuedMetrics c = \<lparr>buf = [], chan_cap = nat (MaxBufferSize c)\<rparr>"
    if "NewClient lim opts = Ok c" for c
  proof -
    have "\<not> (Conn (apply_options opts) = None \<and> Addr (apply_options opts) = [])"
      using that 1 by auto
    then have "c = \<lparr>MaxBufferSize = MaxBufferSize (fst (setDefaults (apply_options opts))),
                   MaxMetricsPerMessage = MaxMetricsPerMessage (fst (setDefaults (apply_options opts))),
                   MaxTries = MaxTries (fst (setDefaults (apply_options opts))),
                   Conn = Conn (apply_options opts), Addr = Addr (apply_options opts),
                   queuedMetrics = \<lparr>buf = [], chan_cap = nat (MaxBufferSize (fst (setDefaults (apply_options opts))))\<rparr>\<rparr>"
      using that by (simp add: NewClient_cases Let_def split: if_splits)
    then show ?thesis by (simp add: setDefaults_fields(1-3))
  qed
  from 1 2 3 show ?thesis by blast
qed


theorem NewClient_defaults_witness:
  "NewClient 1000000 [WithMaxMetricsPerMessage 2, WithAddress ''graphite:2003'']
     = Ok \<lparr>MaxBufferSize = 1000, MaxMetricsPerMessage = 2, MaxTries = 3, Conn = None,
            Addr = ''graphite:2003'', queuedMetrics = \<lparr>buf = [], chan_cap = 1000\<rparr>\<rparr>
   \<and> NewClient 1000000 [WithMaxMetricsPerMessage 2] = Fails ErrNoAddress"
proof -
  let ?opts = "[WithMaxMetricsPerMessage 2, WithAddress ''graphite:2003'']"
  have a: "apply_options ?opts
     = \<lparr>MaxBufferSize = 0, MaxMetricsPerMessage = 2, MaxTries = 0, Conn = None,
        Addr = ''graphite:2003''\<rparr>"
    by (simp add: apply_options_def no_options_def WithMaxMetricsPerMessage_def WithAddress_def)
  have b: "apply_options [WithMaxMetricsPerMessage 2]
     = \<lparr>MaxBufferSize = 0, MaxMetricsPerMessage = 2, MaxTries = 0, Conn = None, Addr = []\<rparr>"
    by (simp add: apply_options_def no_options_def WithMaxMetricsPerMessage_def)
  obtain c where c: "NewClient 1000000 ?opts = Ok c"
    by (simp add: NewClient_cases a setDefaults_fields)
  have "MaxBufferSize c = 1000 \<and> MaxMetricsPerMessage c = 2 \<and> MaxTries c = 3 \<and> Conn c = None
      \<and> Addr c = ''graphite:2003'' \<and> queuedMetrics c = \<lparr>buf = [], chan_cap = 1000\<rparr>"
    using NewClient_defaults [of 1000000 ?opts] c by (simp add: a)
  then have "c = \<lparr>MaxBufferSize = 1000, MaxMetricsPerMessage = 2, MaxTries = 3, Conn = None,
            Addr = ''graphite:2003'', queuedMetrics = \<lparr>buf = [], chan_cap = 1000\<rparr>\<rparr>"
    by (cases c) simp
  moreover have "NewClient 1000000 [WithMaxMetricsPerMessage 2] = Fails ErrNoAddress"
    using NewClient_defaults [of 1000000 "[WithMaxMetricsPerMessage 2]"] by (simp add: b)
  ultimately show ?thesis using c by simp
qed

text \<open>
  C10. \<open>setDefaults\<close> replaces the value 0 only: a negative limit is kept as it is.
  With a negative \<open>MaxBufferSize\<close>, \<open>NewClient\<close> panics when it makes the queue; no
  error is returned for the negative value (when both the stream and the address are
  unset, the test for them returns \<open>ErrNoAddress\<close> before the queue is made).
\<close>

theorem negative_options_kept:
  "(MaxBufferSize c < 0 \<longrightarrow> MaxBufferSize (fst (setDefaults c)) = MaxBufferSize c)
   \<and> (MaxMetricsPerMessage c < 0
        \<longrightarrow> MaxMetricsPerMessage (fst (setDefaults c)) = MaxMetricsPerMessage c)
   \<and> (MaxTries c < 0 \<longrightarrow> MaxTries (fst (setDefaults c)) = MaxTries c)
   \<and> (MaxBufferSize (apply_options opts) < 0 \<longrightarrow>
        NewClient lim opts =
          (if Conn (apply_options opts) = None \<and> Addr (apply_options opts) = []
           then Fails ErrNoAddress else Panics MakechanSize))"
  by (simp add: setDefaults_fields NewClient_cases Let_def)

theorem negative_options_kept_witness:
  "MaxBufferSize (fst (setDefaults (no_options\<lparr>MaxBufferSize := - 1\<rparr>))) = - 1
   \<and> MaxMetricsPerMessage (fst (setDefaults (no_options\<lparr>MaxMetricsPerMessage := - 1\<rparr>))) = - 1
   \<and> MaxTries (fst (setDefaults (no_options\<lparr>MaxTries := - 1\<rparr>))) = - 1
   \<and> NewClient 1000000 [WithMaxBufferSize (- 1), WithConnection (Some accepting)]
       = Panics MakechanSize"
proof -
  let ?opts = "[WithMaxBufferSize (- 1), WithConnection (Some accepting)]"
  have a: "apply_options ?opts
     = \<lparr>MaxBufferSize = - 1, MaxMetricsPerMessage = 0, MaxTries = 0, Conn = Some accepting,
        Addr = []\<rparr>"
    by (simp add: apply_options_def no_options_def WithMaxBufferSize_def WithConnection_def)
  show ?thesis
    using negative_options_kept [of "no_options\<lparr>MaxBufferSize := - 1\<rparr>" ?opts 1000000]
      negative_options_kept [of "no_options\<lparr>MaxMetricsPerMessage := - 1\<rparr>" ?opts 1000000]
      negative_options_kept [of "no_options\<lparr>MaxTries := - 1\<rparr>" ?opts 1000000]
    by (simp add: a no_options_def)
qed

subsection \<open>SendMetric\<close>

lemma SendMetric_cases:
  "SendMetric pk ctx c metric val timestamp =
     (if length (buf (queuedMetrics c)) < chan_cap (queuedMetrics c)
         \<and> (ctx = None \<or> pk = TakeChannel)
      then Some (c\<lparr>queuedMetrics := (queuedMetrics c)
                    \<lparr>buf := buf (queuedMetrics c) @ [queued metric val timestamp]\<rparr>\<rparr>, None)
      else case ctx of None \<Rightarrow> None | Some e \<Rightarrow> Some (c, Some e))"
  by (cases ctx; cases pk) (simp_all add: SendMetric_def Let_def queued_def)

text \<open>
  C7, as the code has it. A call of \<open>SendMetric\<close> that returns has either placed its
  sample at the end of the queue and returns no error, or has left the client as it was
  and returns the error of the context, whose token has fired; it returns no error
  exactly when the sample is placed. When the token has fired and the queue is full the
  call returns the error of the context. When the token has fired and the queue has
  room, both cases of the \<^verbatim>\<open>select\<close> can proceed and the call may as well place the
  sample and return no error.
\<close>

theorem SendMetric_outcomes:
  "(\<forall>c'. SendMetric pk ctx c metric val timestamp = Some (c', None) \<longrightarrow>
        buf (queuedMetrics c') = buf (queuedMetrics c) @ [queued metric val timestamp]
        \<and> length (buf (queuedMetrics c')) \<le> chan_cap (queuedMetrics c)
        \<and> c' = c\<lparr>queuedMetrics := queuedMetrics c'\<rparr>
        \<and> chan_cap (queuedMetrics c') = chan_cap (queuedMetrics c))
   \<and> (\<forall>c' e. SendMetric pk ctx c metric val timestamp = Some (c', Some e) \<longrightarrow>
        ctx = Some e \<and> c' = c)
   \<and> (\<forall>c' r. SendMetric pk ctx c metric val timestamp = Some (c', r) \<longrightarrow>
        (r = None \<longleftrightarrow>
           buf (queuedMetrics c') = buf (queuedMetrics c) @ [queued metric val timestamp]))
   \<and> (\<forall>e. ctx = Some e \<and> chan_cap (queuedMetrics c) \<le> length (buf (queuedMetrics c)) \<longrightarrow>
        SendMetric pk ctx c metric val timestamp = Some (c, Some e))
   \<and> (ctx = None \<and> length (buf (queuedMetrics c)) < chan_cap (queuedMetrics c) \<longrightarrow>
        (\<exists>c'. SendMetric pk ctx c metric val timestamp = Some (c', None)))"
  by (cases ctx) (auto simp: SendMetric_cases split: if_splits)

theorem SendMetric_outcomes_witness:
  "SendMetric TakeDone None (scenario_client accepting) cpu_idle ''1'' at_1700000000
     = Some ((scenario_client accepting)
              \<lparr>queuedMetrics := \<lparr>buf = [cpu_idle_sample ''1''], chan_cap = 10\<rparr>\<rparr>, None)
   \<and> SendMetric TakeChannel (Some (CtxErr ''context canceled'')) full_client cpu_idle ''2''
         at_1700000000
     = Some (full_client, Some (CtxErr ''context canceled''))"
proof -
  have "chan_cap (queuedMetrics full_client) \<le> length (buf (queuedMetrics full_client))"
    by (simp add: full_client_def)
  then have "SendMetric TakeChannel (Some (CtxErr ''context canceled'')) full_client cpu_idle ''2''
         at_1700000000
     = Some (full_client, Some (CtxErr ''context canceled''))"
    using SendMetric_outcomes [of TakeChannel "Some (CtxErr ''context canceled'')" full_client
        cpu_idle "''2''" at_1700000000]
    by blast
  then show ?thesis
    by (simp add: SendMetric_cases scenario_client_def queued_def cpu_idle_def cpu_idle_sample_def)
qed

text \<open>A call on a context whose token has fired, with room in the queue.\<close>

theorem SendMetric_after_cancel_may_enqueue:
  "SendMetric TakeChannel (Some (CtxErr ''context canceled'')) (scenario_client accepting)
       cpu_idle ''1'' at_1700000000
     = Some ((scenario_client accepting)
              \<lparr>queuedMetrics := \<lparr>buf = [cpu_idle_sample ''1''], chan_cap = 10\<rparr>\<rparr>, None)"
  by (simp add: SendMetric_cases scenario_client_def queued_def cpu_idle_def cpu_idle_sample_def)

subsection \<open>Writing a batch\<close>

lemma conn_Write_eq:
  "conn_Write cn p =
     (cn\<lparr>wire := wire cn @ [taken (behaviour cn (length (wire cn))) p]\<rparr>,
      write_error (behaviour cn (length (wire cn))))"
  by (simp add: conn_Write_def taken_def write_error_def split: write_result.split)

lemma write_error_None: "write_error w = None \<longleftrightarrow> w = WriteOk"
  by (simp add: write_error_def split: write_result.split)

lemma attempts_Suc:
  "attempts cn p (Suc n) =
     taken (behaviour cn (length (wire cn))) p
       # attempts (cn\<lparr>wire := wire cn @ [taken (behaviour cn (length (wire cn))) p]\<rparr>) p n"
  by (simp add: attempts_def map_upt_Suc del: upt_Suc)

lemma write_tries_all_fail:
  assumes "\<forall>t<n. behaviour cn (length (wire cn) + t) \<noteq> WriteOk" and "int n = maxTries - i"
  shows "write_tries maxTries i cn str err =
     (cn\<lparr>wire := wire cn @ attempts cn str n\<rparr>,
      Some (ErrAfterTries maxTries
             (if n = 0 then err else write_error (behaviour cn (length (wire cn) + n - 1)))))"
  using assms
proof (induction n arbitrary: i cn err)
  case 0
  then show ?case by (simp add: write_tries.simps attempts_def)
next
  case (Suc n)
  let ?w = "behaviour cn (length (wire cn))"
  let ?cn = "cn\<lparr>wire := wire cn @ [taken ?w str]\<rparr>"
  have lt: "i < maxTries" using Suc.prems(2) by simp
  have "?w \<noteq> WriteOk" using Suc.prems(1) by (metis add.right_neutral zero_less_Suc)
  then obtain e where e: "write_error ?w = Some e"
    using write_error_None [of ?w] by (cases "write_error ?w") auto
  have step: "write_tries maxTries i cn str err = write_tries maxTries (i + 1) ?cn str (Some e)"
    using lt e by (subst write_tries.simps) (simp add: conn_Write_eq)
  have "\<forall>t<n. behaviour ?cn (length (wire ?cn) + t) \<noteq> WriteOk"
    using Suc.prems(1) by auto
  moreover have "int n = maxTries - (i + 1)" using Suc.prems(2) by simp
  ultimately have "write_tries maxTries (i + 1) ?cn str (Some e) =
     (?cn\<lparr>wire := wire ?cn @ attempts ?cn str n\<rparr>,
      Some (ErrAfterTries maxTries
             (if n = 0 then Some e else write_error (behaviour ?cn (length (wire ?cn) + n - 1)))))"
    by (rule Suc.IH)
  then show ?case
    unfolding step by (cases n) (simp_all add: attempts_Suc e)
qed

lemma write_tries_success:
  assumes "\<forall>t<j. behaviour cn (length (wire cn) + t) \<noteq> WriteOk"
    and "behaviour cn (length (wire cn) + j) = WriteOk" and "int j < maxTries - i"
  shows "write_tries maxTries i cn str err = (cn\<lparr>wire := wire cn @ attempts cn str (Suc j)\<rparr>, None)"
  using assms
proof (induction j arbitrary: i cn err)
  case 0
  then show ?case
    by (subst write_tries.simps) (simp add: conn_Write_eq attempts_def write_error_def taken_def)
next
  case (Suc j)
  let ?w = "behaviour cn (length (wire cn))"
  let ?cn = "cn\<lparr>wire := wire cn @ [taken ?w str]\<rparr>"
  have lt: "i < maxTries" using Suc.prems(3) by simp
  have "?w \<noteq> WriteOk" using Suc.prems(1) by (metis add.right_neutral zero_less_Suc)
  then obtain e where e: "write_error ?w = Some e"
    using write_error_None [of ?w] by (cases "write_error ?w") auto
  have step: "write_tries maxTries i cn str err = write_tries maxTries (i + 1) ?cn str (Some e)"
    using lt e by (subst write_tries.simps) (simp add: conn_Write_eq)
  have "\<forall>t<j. behaviour ?cn (length (wire ?cn) + t) \<noteq> WriteOk"
    using Suc.prems(1) by auto
  moreover have "behaviour ?cn (length (wire ?cn) + j) = WriteOk" using Suc.prems(2) by simp
  moreover have "int j < maxTries - (i + 1)" using Suc.prems(3) by simp
  ultimately have "write_tries maxTries (i + 1) ?cn str (Some e)
      = (?cn\<lparr>wire := wire ?cn @ attempts ?cn str (Suc j)\<rparr>, None)"
    by (rule Suc.IH)
  then show ?case
    unfolding step by (simp add: attempts_Suc [of cn str "Suc j"])
qed

lemma SubmitMetricsString_Some:
  "Conn c = Some cn \<Longrightarrow>
   SubmitMetricsString c str =
     Inr (c\<lparr>Conn := Some (fst (write_tries (MaxTries c) 0 cn (with_newline str) None))\<rparr>,
          snd (write_tries (MaxTries c) 0 cn (with_newline str) None))"
  by (simp add: SubmitMetricsString_def with_newline_def Let_def split: prod.split)

subsection \<open>Forming a batch\<close>

lemma same_client_iff:
  "same_client r r' \<longleftrightarrow>
     (\<exists>q. cli r' = (cli r)\<lparr>queuedMetrics := (queuedMetrics (cli r))\<lparr>buf := q\<rparr>\<rparr>)"
proof
  assume "same_client r r'"
  then show "\<exists>q. cli r' = (cli r)\<lparr>queuedMetrics := (queuedMetrics (cli r))\<lparr>buf := q\<rparr>\<rparr>"
    unfolding same_client_def by (rule exI)
next
  assume "\<exists>q. cli r' = (cli r)\<lparr>queuedMetrics := (queuedMetrics (cli r))\<lparr>buf := q\<rparr>\<rparr>"
  then obtain q where q: "cli r' = (cli r)\<lparr>queuedMetrics := (queuedMetrics (cli r))\<lparr>buf := q\<rparr>\<rparr>"
    by blast
  then have "buf (queuedMetrics (cli r')) = q" by simp
  with q show "same_client r r'" by (simp add: same_client_def)
qed

lemma same_client_refl: "same_client r r"
  by (simp add: same_client_def)

lemma same_client_trans: "same_client r r' \<Longrightarrow> same_client r' r'' \<Longrightarrow> same_client r r''"
  unfolding same_client_iff by (elim exE) (rule exI, simp)

lemma same_client_observe: "same_client r (observe e r)"
  unfolding same_client_iff observe_def arrive_def by (rule exI) simp

lemma same_client_take_oldest: "same_client r (take_oldest rest r)"
  unfolding same_client_iff take_oldest_def by (rule exI) simp

lemma same_client_fields:
  assumes "same_client r r'"
  shows "MaxMetricsPerMessage (cli r') = MaxMetricsPerMessage (cli r)"
    and "MaxTries (cli r') = MaxTries (cli r)" and "Conn (cli r') = Conn (cli r)"
    and "chan_cap (queuedMetrics (cli r')) = chan_cap (queuedMetrics (cli r))"
  using assms unfolding same_client_iff by auto

lemma first_select_eq:
  "first_select h sched r0 strs =
     (let e = sched (selects r0); r = observe e r0
      in case buf (queuedMetrics (cli r)) of
           [] \<Rightarrow> (case token r of None \<Rightarrow> Wait | Some err \<Rightarrow> Return (ErrCancelledSubmitting err) r)
         | metric # rest \<Rightarrow>
             (case token r of
                Some err \<Rightarrow>
                  (if pick e = TakeDone then Return (ErrCancelledSubmitting err) r
                   else (case Metric_String h (order e) metric of
                           Inl p \<Rightarrow> Panic p
                         | Inr line \<Rightarrow> Next (strs @ [line]) (take_oldest rest r)))
              | None \<Rightarrow>
                  (case Metric_String h (order e) metric of
                     Inl p \<Rightarrow> Panic p
                   | Inr line \<Rightarrow> Next (strs @ [line]) (take_oldest rest r))))"
  by (simp add: first_select_def receive_def Let_def
      split: list.split option.split choice.split sum.split)

lemma further_loop_eq:
  "further_loop h sched N i r0 strs =
     (if i < N then
        (let e = sched (selects r0); r = observe e r0
         in case buf (queuedMetrics (cli r)) of
              [] \<Rightarrow> (case token r of None \<Rightarrow> Next strs r
                      | Some err \<Rightarrow> Return (ErrCancelledSubmitting err) r)
            | metric # rest \<Rightarrow>
                (case token r of
                   Some err \<Rightarrow>
                     (if pick e = TakeDone then Return (ErrCancelledSubmitting err) r
                      else (case Metric_String h (order e) metric of
                              Inl p \<Rightarrow> Panic p
                            | Inr line \<Rightarrow>
                                further_loop h sched N (i + 1) (take_oldest rest r) (strs @ [line])))
                 | None \<Rightarrow>
                     (case Metric_String h (order e) metric of
                        Inl p \<Rightarrow> Panic p
                      | Inr line \<Rightarrow>
                          further_loop h sched N (i + 1) (take_oldest rest r) (strs @ [line]))))
      else Next strs r0)"
  by (subst further_loop.simps)
     (simp add: receive_def Let_def split: list.split option.split choice.split sum.split)

lemma further_loop_Next:
  assumes "further_loop h sched N i r strs = Next strs' r'"
  shows "same_client r r' \<and> length strs \<le> length strs'
     \<and> int (length strs') \<le> int (length strs) + max 0 (N - i)"
  using assms
proof (induction "nat (N - i)" arbitrary: i r strs)
  case 0
  then have "\<not> i < N" by simp
  with "0.prems" show ?case by (subst (asm) further_loop_eq) (simp add: same_client_refl)
next
  case (Suc n)
  then have lt: "i < N" by simp
  let ?e = "sched (selects r)"
  let ?r = "observe ?e r"
  have sc: "same_client r ?r" by (rule same_client_observe)
  have n: "n = nat (N - (i + 1))" using Suc.hyps(2) by simp
  show ?case
  proof (cases "buf (queuedMetrics (cli ?r))")
    case Nil
    with Suc.prems lt have "strs' = strs \<and> r' = ?r"
      by (subst (asm) further_loop_eq) (simp add: Let_def split: option.splits)
    with sc lt show ?thesis by simp
  next
    case (Cons metric rest)
    with Suc.prems lt obtain line where
      rec: "further_loop h sched N (i + 1) (take_oldest rest ?r) (strs @ [line]) = Next strs' r'"
      by (subst (asm) further_loop_eq)
         (auto simp: Let_def split: option.splits if_splits sum.splits)
    from Suc.hyps(1) [OF n rec]
    have "same_client (take_oldest rest ?r) r'" "length (strs @ [line]) \<le> length strs'"
      "int (length strs') \<le> int (length (strs @ [line])) + max 0 (N - (i + 1))"
      by simp_all
    moreover have "same_client r (take_oldest rest ?r)"
      using sc same_client_take_oldest by (rule same_client_trans)
    ultimately show ?thesis using lt same_client_trans [of r "take_oldest rest ?r" r'] by simp
  qed
qed

lemma further_loop_not_Wait: "further_loop h sched N i r strs \<noteq> Wait"
proof (induction "nat (N - i)" arbitrary: i r strs)
  case 0
  then have "\<not> i < N" by simp
  then show ?case by (subst further_loop_eq) simp
next
  case (Suc n)
  then have lt: "i < N" and n: "n = nat (N - (i + 1))" by simp_all
  from Suc.hyps(1) [OF n] lt show ?case
    by (subst further_loop_eq)
       (simp add: Let_def split: list.split option.split sum.split)
qed

lemma first_select_Next:
  assumes "first_select h sched r strs = Next strs' r'"
  shows "same_client r r' \<and> length strs' = length strs + 1"
proof -
  let ?r = "observe (sched (selects r)) r"
  from assms obtain rest line where "r' = take_oldest rest ?r" "strs' = strs @ [line]"
    by (auto simp: first_select_eq Let_def split: list.splits option.splits if_splits sum.splits)
  then show ?thesis
    using same_client_trans [OF same_client_observe same_client_take_oldest] by simp
qed

lemma form_batch_eq:
  "form_batch slim h sched r =
     (if MaxMetricsPerMessage (cli r) < 0 \<or> slim < MaxMetricsPerMessage (cli r)
      then Panic MakesliceCap
      else case first_select h sched r [] of
             Next strs r' \<Rightarrow> further_loop h sched (MaxMetricsPerMessage (cli r')) 1 r' strs
           | Wait \<Rightarrow> Wait
           | Panic p \<Rightarrow> Panic p
           | Return err r' \<Rightarrow> Return err r')"
  by (simp add: form_batch_def make_strings_def)

lemma form_batch_Next:
  assumes "form_batch slim h sched r = Next strs r'"
  shows "same_client r r' \<and> 1 \<le> length strs
     \<and> int (length strs) \<le> max 1 (MaxMetricsPerMessage (cli r))
     \<and> 0 \<le> MaxMetricsPerMessage (cli r) \<and> MaxMetricsPerMessage (cli r) \<le> slim"
proof -
  from assms have lim: "0 \<le> MaxMetricsPerMessage (cli r)" "MaxMetricsPerMessage (cli r) \<le> slim"
    by (simp_all add: form_batch_eq split: if_splits)
  from assms obtain s1 r1 where f: "first_select h sched r [] = Next s1 r1"
    and l: "further_loop h sched (MaxMetricsPerMessage (cli r1)) 1 r1 s1 = Next strs r'"
    by (auto simp: form_batch_eq split: if_splits step.splits)
  from first_select_Next [OF f] have 1: "same_client r r1" "length s1 = 1" by simp_all
  from further_loop_Next [OF l] have 2: "same_client r1 r'" "length s1 \<le> length strs"
    "int (length strs) \<le> int (length s1) + max 0 (MaxMetricsPerMessage (cli r1) - 1)"
    by simp_all
  have "MaxMetricsPerMessage (cli r1) = MaxMetricsPerMessage (cli r)"
    using 1(1) by (rule same_client_fields)
  with 1 2 lim show ?thesis using same_client_trans [of r r1 r'] by simp
qed

subsection \<open>The loop of Submit\<close>

lemma Submit_iteration_eq:
  "Submit_iteration slim h sched r =
     (case form_batch slim h sched r of
        Next strs r' \<Rightarrow>
          (case Conn (cli r') of
             None \<Rightarrow>
               (if 0 < MaxTries (cli r') then Panic NilDereference
                else Return (ErrSubmit (ErrAfterTries (MaxTries (cli r')) None)) (r'\<lparr>cli := cli r'\<rparr>))
           | Some cn \<Rightarrow>
               (case write_tries (MaxTries (cli r')) 0 cn (with_newline (Join strs [newline])) None of
                  (cn', None) \<Rightarrow> Next () (r'\<lparr>cli := (cli r')\<lparr>Conn := Some cn'\<rparr>\<rparr>)
                | (cn', Some err) \<Rightarrow> Return (ErrSubmit err) (r'\<lparr>cli := (cli r')\<lparr>Conn := Some cn'\<rparr>\<rparr>)))
      | Wait \<Rightarrow> Wait
      | Panic p \<Rightarrow> Panic p
      | Return err r' \<Rightarrow> Return err r')"
  by (simp add: Submit_iteration_def SubmitMetricsString_def with_newline_def Let_def
      split: step.split option.split prod.split)

lemma Submit_loop_Return:
  "Submit_loop k slim h sched r = Next () r1 \<Longrightarrow> Submit_iteration slim h sched r1 = Return err r2
    \<Longrightarrow> Submit_loop (k + Suc n) slim h sched r = Return err r2"
proof (induction k arbitrary: r)
  case 0
  then show ?case by simp
next
  case (Suc k)
  from Suc.prems(1) obtain r' where i: "Submit_iteration slim h sched r = Next () r'"
    and l: "Submit_loop k slim h sched r' = Next () r1"
    by (auto split: step.splits)
  from Suc.IH [OF l Suc.prems(2)] i show ?case by simp
qed

text \<open>
  C3, as the code has it. Let the stream be \<open>cn\<close>. If among the first \<open>MaxTries\<close> calls
  of \<^verbatim>\<open>Write\<close> the one numbered \<open>j\<close> is the first to succeed, \<open>SubmitMetricsString\<close>
  returns no error and has made \<open>j + 1\<close> calls, not one more. If \<open>MaxTries\<close> is 1 or
  more and all of the first \<open>MaxTries\<close> calls fail, it has made \<open>MaxTries\<close> calls and
  returns the error that carries \<open>MaxTries\<close> and wraps the error of the last call; an
  iteration of the loop of \<open>Submit\<close> in which this happens makes \<open>Submit\<close> return that
  error, wrapped, however long the loop is allowed to run: nothing more is taken from
  the queue or written. If \<open>MaxTries\<close> is below 1 (a negative value is kept when the
  client is made), it makes no call and returns the error that carries \<open>MaxTries\<close> and
  wraps no error.
\<close>

theorem SubmitMetricsString_retries:
  "(\<forall>cn j. Conn c = Some cn \<and> int j < MaxTries c
        \<and> behaviour cn (length (wire cn) + j) = WriteOk
        \<and> (\<forall>t<j. behaviour cn (length (wire cn) + t) \<noteq> WriteOk) \<longrightarrow>
      SubmitMetricsString c str
        = Inr (c\<lparr>Conn := Some (cn\<lparr>wire := wire cn @ attempts cn (with_newline str) (Suc j)\<rparr>)\<rparr>,
               None))
   \<and> (\<forall>cn. Conn c = Some cn \<and> 0 < MaxTries c
        \<and> (\<forall>t. int t < MaxTries c \<longrightarrow> behaviour cn (length (wire cn) + t) \<noteq> WriteOk) \<longrightarrow>
      (\<exists>e. write_error (behaviour cn (length (wire cn) + nat (MaxTries c) - 1))
              = Some (WriteFailure e)
         \<and> SubmitMetricsString c str
             = Inr (c\<lparr>Conn := Some (cn\<lparr>wire := wire cn
                                            @ attempts cn (with_newline str) (nat (MaxTries c))\<rparr>)\<rparr>,
                    Some (ErrAfterTries (MaxTries c) (Some (WriteFailure e))))))
   \<and> (\<forall>cn k r1 strs r2 n. Submit k slim h sched r = Next () r1
        \<and> form_batch slim h sched r1 = Next strs r2
        \<and> Conn (cli r2) = Some cn \<and> 0 < MaxTries (cli r2)
        \<and> (\<forall>t. int t < MaxTries (cli r2) \<longrightarrow> behaviour cn (length (wire cn) + t) \<noteq> WriteOk) \<longrightarrow>
      (\<exists>e. write_error (behaviour cn (length (wire cn) + nat (MaxTries (cli r2)) - 1))
              = Some (WriteFailure e)
         \<and> Submit (k + Suc n) slim h sched r
             = Return (ErrSubmit (ErrAfterTries (MaxTries (cli r2)) (Some (WriteFailure e))))
                 (r2\<lparr>cli := (cli r2)\<lparr>Conn := Some (cn\<lparr>wire := wire cn
                      @ attempts cn (with_newline (Join strs [newline]))
                          (nat (MaxTries (cli r2)))\<rparr>)\<rparr>\<rparr>)))
   \<and> (\<forall>cn. Conn c = Some cn \<and> MaxTries c \<le> 0 \<longrightarrow>
        SubmitMetricsString c str = Inr (c, Some (ErrAfterTries (MaxTries c) None)))"
proof (intro conjI allI impI)
  fix cn j
  assume a: "Conn c = Some cn \<and> int j < MaxTries c
        \<and> behaviour cn (length (wire cn) + j) = WriteOk
        \<and> (\<forall>t<j. behaviour cn (length (wire cn) + t) \<noteq> WriteOk)"
  then have "write_tries (MaxTries c) 0 cn (with_newline str) None
      = (cn\<lparr>wire := wire cn @ attempts cn (with_newline str) (Suc j)\<rparr>, None)"
    by (intro write_tries_success) simp_all
  with a show "SubmitMetricsString c str
        = Inr (c\<lparr>Conn := Some (cn\<lparr>wire := wire cn @ attempts cn (with_newline str) (Suc j)\<rparr>)\<rparr>,
               None)"
    by (simp add: SubmitMetricsString_Some)
next
  fix cn
  assume a: "Conn c = Some cn \<and> 0 < MaxTries c
        \<and> (\<forall>t. int t < MaxTries c \<longrightarrow> behaviour cn (length (wire cn) + t) \<noteq> WriteOk)"
  let ?n = "nat (MaxTries c)"
  have n: "int ?n = MaxTries c - 0" "?n \<noteq> 0" using a by simp_all
  have f: "\<forall>t<?n. behaviour cn (length (wire cn) + t) \<noteq> WriteOk" using a by simp
  have "behaviour cn (length (wire cn) + ?n - 1) \<noteq> WriteOk"
    using f n(2) by (metis Nat.add_diff_assoc One_nat_def Suc_leI diff_less neq0_conv zero_less_one)
  then obtain e where e: "write_error (behaviour cn (length (wire cn) + ?n - 1)) = Some (WriteFailure e)"
    by (cases "behaviour cn (length (wire cn) + ?n - 1)") (simp_all add: write_error_def)
  from write_tries_all_fail [OF f n(1), of "with_newline str" None] n(2) e a
  show "\<exists>e. write_error (behaviour cn (length (wire cn) + nat (MaxTries c) - 1))
              = Some (WriteFailure e)
         \<and> SubmitMetricsString c str
             = Inr (c\<lparr>Conn := Some (cn\<lparr>wire := wire cn
                                            @ attempts cn (with_newline str) (nat (MaxTries c))\<rparr>)\<rparr>,
                    Some (ErrAfterTries (MaxTries c) (Some (WriteFailure e))))"
    by (simp add: SubmitMetricsString_Some)
next
  fix cn k r1 strs r2 n
  assume a: "Submit k slim h sched r = Next () r1
        \<and> form_batch slim h sched r1 = Next strs r2
        \<and> Conn (cli r2) = Some cn \<and> 0 < MaxTries (cli r2)
        \<and> (\<forall>t. int t < MaxTries (cli r2) \<longrightarrow> behaviour cn (length (wire cn) + t) \<noteq> WriteOk)"
  let ?n = "nat (MaxTries (cli r2))"
  have c: "Conn (cli r) \<noteq> None" and l: "Submit_loop k slim h sched r = Next () r1"
    using a by (auto simp: Submit_def split: if_splits)
  have n: "int ?n = MaxTries (cli r2) - 0" "?n \<noteq> 0" using a by simp_all
  have f: "\<forall>t<?n. behaviour cn (length (wire cn) + t) \<noteq> WriteOk" using a by simp
  have "behaviour cn (length (wire cn) + ?n - 1) \<noteq> WriteOk"
    using f n(2) by (metis Nat.add_diff_assoc One_nat_def Suc_leI diff_less neq0_conv zero_less_one)
  then obtain e where e: "write_error (behaviour cn (length (wire cn) + ?n - 1)) = Some (WriteFailure e)"
    by (cases "behaviour cn (length (wire cn) + ?n - 1)") (simp_all add: write_error_def)
  have "Submit_iteration slim h sched r1
      = Return (ErrSubmit (ErrAfterTries (MaxTries (cli r2)) (Some (WriteFailure e))))
                 (r2\<lparr>cli := (cli r2)\<lparr>Conn := Some (cn\<lparr>wire := wire cn
                      @ attempts cn (with_newline (Join strs [newline])) ?n\<rparr>)\<rparr>\<rparr>)"
    using write_tries_all_fail [OF f n(1), of "with_newline (Join strs [newline])" None] n(2) e a
    by (simp add: Submit_iteration_eq)
  from Submit_loop_Return [OF l this, of n] c e
  show "\<exists>e. write_error (behaviour cn (length (wire cn) + nat (MaxTries (cli r2)) - 1))
              = Some (WriteFailure e)
         \<and> Submit (k + Suc n) slim h sched r
             = Return (ErrSubmit (ErrAfterTries (MaxTries (cli r2)) (Some (WriteFailure e))))
                 (r2\<lparr>cli := (cli r2)\<lparr>Conn := Some (cn\<lparr>wire := wire cn
                      @ attempts cn (with_newline (Join strs [newline]))
                          (nat (MaxTries (cli r2)))\<rparr>)\<rparr>\<rparr>)"
    by (simp add: Submit_def)
next
  fix cn
  assume a: "Conn c = Some cn \<and> MaxTries c \<le> 0"
  then have "write_tries (MaxTries c) 0 cn (with_newline str) None
      = (cn, Some (ErrAfterTries (MaxTries c) None))"
    by (subst write_tries.simps) simp
  moreover have "c\<lparr>Conn := Some cn\<rparr> = c" using a by (cases c) simp
  ultimately show "SubmitMetricsString c str = Inr (c, Some (ErrAfterTries (MaxTries c) None))"
    using a by (simp add: SubmitMetricsString_Some)
qed

subsection \<open>The scenario of three samples\<close>

lemma arrive_Nil: "arrive ch [] = ch"
  by (simp add: arrive_def)

lemma observe_quiet:
  "arrivals e = [] \<Longrightarrow> fires e = None \<Longrightarrow> observe e r = r\<lparr>selects := selects r + 1\<rparr>"
  by (simp add: observe_def arrive_Nil fire_def split: option.split)

lemma Metric_String_queued:
  assumes "wf_slice h (Name md)" "slice_elems h (Name md) = [''cpu'', ''idle'']"
    and "Tags md = host_a" "Unix ts = 1700000000" "range_order host_a ord"
  shows "Metric_String h ord (queued md v ts) = Inr (cpu_idle_line v)"
proof -
  have l: "0 < s_len (Name md)"
    using assms(2) by (cases "s_len (Name md)") (simp_all add: slice_elems_def)
  have o: "ord = [(''host'', ''a'')]" using assms(5) by (simp add: range_order_host_a)
  have "wf_slice h (Name (queued md v ts))" "0 < s_len (Name (queued md v ts))"
    using assms(1) l by (simp_all add: queued_def)
  from Metric_String_wf [OF this] show ?thesis
    using assms(2,4)
    by (simp add: queued_def o tag_clause_def Sprint_int_1700000000 cpu_idle_line_def)
qed

lemma scenario_batch:
  assumes q: "\<forall>k<2. arrivals (sched k) = [] \<and> fires (sched k) = None
                \<and> range_order host_a (order (sched k))"
    and md: "wf_slice h (Name md)" "slice_elems h (Name md) = [''cpu'', ''idle'']"
      "Tags md = host_a" "Unix ts = 1700000000"
    and r: "buf (queuedMetrics (cli r)) = [queued md v1 ts, queued md v2 ts, queued md v3 ts]"
      "MaxMetricsPerMessage (cli r) = 2" "token r = None" "selects r = 0"
    and slim: "2 \<le> slim"
  shows "form_batch slim h sched r =
     Next [cpu_idle_line v1, cpu_idle_line v2]
       (r\<lparr>cli := (cli r)\<lparr>queuedMetrics := (queuedMetrics (cli r))\<lparr>buf := [queued md v3 ts]\<rparr>\<rparr>,
          selects := 2\<rparr>)"
proof -
  have q0: "arrivals (sched 0) = []" "fires (sched 0) = None" "range_order host_a (order (sched 0))"
    and q1: "arrivals (sched (Suc 0)) = []" "fires (sched (Suc 0)) = None"
      "range_order host_a (order (sched (Suc 0)))"
    using q by simp_all
  let ?r1 = "take_oldest [queued md v2 ts, queued md v3 ts] (r\<lparr>selects := 1\<rparr>)"
  have 1: "first_select h sched r [] = Next [cpu_idle_line v1] ?r1"
    using r by (simp add: first_select_eq observe_quiet q0 Metric_String_queued [OF md])
  let ?r2 = "take_oldest [queued md v3 ts] (?r1\<lparr>selects := 2\<rparr>)"
  have s1: "selects ?r1 = Suc 0" "buf (queuedMetrics (cli ?r1)) = [queued md v2 ts, queued md v3 ts]"
    "token ?r1 = None" "MaxMetricsPerMessage (cli ?r1) = 2"
    using r by (simp_all add: take_oldest_def)
  have 3: "further_loop h sched 2 2 ?r2 [cpu_idle_line v1, cpu_idle_line v2]
      = Next [cpu_idle_line v1, cpu_idle_line v2] ?r2"
    by (subst further_loop_eq) simp
  have 2: "further_loop h sched 2 1 ?r1 [cpu_idle_line v1]
      = Next [cpu_idle_line v1, cpu_idle_line v2] ?r2"
    by (subst further_loop_eq)
       (simp add: s1 observe_quiet q1 Metric_String_queued [OF md] 3 del: One_nat_def)
  have "form_batch slim h sched r
      = (case first_select h sched r [] of
           Next strs r' \<Rightarrow> further_loop h sched (MaxMetricsPerMessage (cli r')) 1 r' strs
         | Wait \<Rightarrow> Wait
         | Panic p \<Rightarrow> Panic p
         | Return err r' \<Rightarrow> Return err r')"
    using r(2) slim by (simp add: form_batch_eq)
  also have "\<dots> = further_loop h sched (MaxMetricsPerMessage (cli ?r1)) 1 ?r1 [cpu_idle_line v1]"
    by (simp only: 1 step.case)
  also have "\<dots> = Next [cpu_idle_line v1, cpu_idle_line v2] ?r2"
    by (simp only: s1 2)
  also have "?r2 = r\<lparr>cli := (cli r)\<lparr>queuedMetrics := (queuedMetrics (cli r))\<lparr>buf := [queued md v3 ts]\<rparr>\<rparr>,
          selects := 2\<rparr>"
    by (simp add: take_oldest_def)
  finally show ?thesis .
qed

lemma HasSuffix_snoc: "HasSuffix (xs @ [c]) [d] \<longleftrightarrow> c = d"
  by (simp add: HasSuffix_def)

lemma with_newline_lines:
  "with_newline (cpu_idle_line v1 @ newline # cpu_idle_line v2)
     = cpu_idle_line v1 @ newline # cpu_idle_line v2 @ [newline]"
proof -
  let ?p = "cpu_idle_line v1 @ newline # ''cpu.idle;host=a '' @ v2 @ '' 170000000''"
  have e: "cpu_idle_line v1 @ newline # cpu_idle_line v2 = ?p @ [CHR ''0'']"
    by (simp add: cpu_idle_line_def)
  have "with_newline (?p @ [CHR ''0'']) = (?p @ [CHR ''0'']) @ [newline]"
    by (simp only: with_newline_def HasSuffix_snoc) (simp add: newline_def)
  then have "with_newline (cpu_idle_line v1 @ newline # cpu_idle_line v2)
      = (cpu_idle_line v1 @ newline # cpu_idle_line v2) @ [newline]"
    by (simp only: e)
  then show ?thesis by simp
qed

lemma SendMetric_room:
  "length (buf (queuedMetrics c)) < chan_cap (queuedMetrics c) \<Longrightarrow>
   SendMetric pk None c metric val timestamp =
     Some (c\<lparr>queuedMetrics := (queuedMetrics c)
               \<lparr>buf := buf (queuedMetrics c) @ [queued metric val timestamp]\<rparr>\<rparr>, None)"
  by (simp add: SendMetric_cases)

text \<open>
  C1. A client is made with room for 10 samples, batches of 2 and 1 try, on a stream
  that has taken nothing yet and takes the first write. Three samples named
  \<^verbatim>\<open>["cpu","idle"]\<close> with the tag \<^verbatim>\<open>{host: "a"}\<close>, the values 1, 2, 3 and the time
  1700000000 are sent, with the token not fired. Then one iteration of the loop of
  \<open>Submit\<close>, with no producer sending and the token not firing meanwhile, writes to the
  stream the lines of the first two samples, each followed by a newline, in one
  write, and leaves the third sample in the queue.
\<close>

theorem Submit_scenario:
  assumes lim: "10 \<le> lim" "2 \<le> slim"
    and md: "wf_slice h (Name md)" "slice_elems h (Name md) = [''cpu'', ''idle'']"
      "Tags md = [''host'' \<mapsto> ''a'']" "Unix ts = 1700000000"
    and cn: "wire cn = []" "behaviour cn 0 = WriteOk"
    and q: "\<forall>k<2. arrivals (sched k) = [] \<and> fires (sched k) = None
                \<and> range_order (Tags md) (order (sched k))"
  shows "\<exists>c0 c1 c2 c3 r.
       NewClient lim [WithMaxBufferSize 10, WithMaxMetricsPerMessage 2, WithMaxTries 1,
                      WithConnection (Some cn)] = Ok c0
     \<and> SendMetric pk1 None c0 md ''1'' ts = Some (c1, None)
     \<and> SendMetric pk2 None c1 md ''2'' ts = Some (c2, None)
     \<and> SendMetric pk3 None c2 md ''3'' ts = Some (c3, None)
     \<and> Submit 1 slim h sched \<lparr>cli = c3, token = None, selects = 0\<rparr> = Next () r
     \<and> Conn (cli r)
         = Some (cn\<lparr>wire := [''cpu.idle;host=a 1 1700000000'' @ [newline]
                             @ ''cpu.idle;host=a 2 1700000000'' @ [newline]]\<rparr>)
     \<and> buf (queuedMetrics (cli r)) = [queued md ''3'' ts]"
proof -
  let ?c0 = "scenario_client cn"
  let ?c1 = "?c0\<lparr>queuedMetrics := \<lparr>buf = [queued md ''1'' ts], chan_cap = 10\<rparr>\<rparr>"
  let ?c2 = "?c0\<lparr>queuedMetrics := \<lparr>buf = [queued md ''1'' ts, queued md ''2'' ts], chan_cap = 10\<rparr>\<rparr>"
  let ?c3 = "?c0\<lparr>queuedMetrics :=
              \<lparr>buf = [queued md ''1'' ts, queued md ''2'' ts, queued md ''3'' ts], chan_cap = 10\<rparr>\<rparr>"
  let ?start = "\<lparr>cli = ?c3, token = None, selects = 0\<rparr>"
  let ?msg = "cpu_idle_line ''1'' @ newline # cpu_idle_line ''2'' @ [newline]"
  let ?cn = "cn\<lparr>wire := [?msg]\<rparr>"
  let ?final = "\<lparr>cli = ?c0\<lparr>Conn := Some ?cn,
                 queuedMetrics := \<lparr>buf = [queued md ''3'' ts], chan_cap = 10\<rparr>\<rparr>,
             token = None, selects = 2\<rparr>"
  have t: "Tags md = host_a" using md(3) by (simp add: host_a_def)
  have q': "\<forall>k<2. arrivals (sched k) = [] \<and> fires (sched k) = None
                \<and> range_order host_a (order (sched k))"
    using q t by simp
  have n: "NewClient lim [WithMaxBufferSize 10, WithMaxMetricsPerMessage 2, WithMaxTries 1,
                      WithConnection (Some cn)] = Ok ?c0"
    using NewClient_scenario [OF lim(1), of cn] by (simp add: scenario_options_def)
  have s1: "SendMetric pk1 None ?c0 md ''1'' ts = Some (?c1, None)"
    by (subst SendMetric_room) (simp_all add: scenario_client_def)
  have s2: "SendMetric pk2 None ?c1 md ''2'' ts = Some (?c2, None)"
    by (subst SendMetric_room) (simp_all add: scenario_client_def)
  have s3: "SendMetric pk3 None ?c2 md ''3'' ts = Some (?c3, None)"
    by (subst SendMetric_room) (simp_all add: scenario_client_def)
  have b: "form_batch slim h sched ?start =
     Next [cpu_idle_line ''1'', cpu_idle_line ''2'']
       (?start\<lparr>cli := (cli ?start)\<lparr>queuedMetrics := (queuedMetrics (cli ?start))\<lparr>buf := [queued md ''3'' ts]\<rparr>\<rparr>,
          selects := 2\<rparr>)"
    by (rule scenario_batch [OF q' md(1,2) t md(4)]) (simp_all add: scenario_client_def lim(2))
  have w: "write_tries 1 0 cn ?msg None = (?cn, None)"
  proof -
    have "write_tries 1 0 cn ?msg None = (cn\<lparr>wire := wire cn @ attempts cn ?msg (Suc 0)\<rparr>, None)"
      by (rule write_tries_success) (simp_all add: cn)
    moreover have "attempts cn ?msg (Suc 0) = [?msg]" by (simp add: attempts_def taken_def cn)
    ultimately show ?thesis by (simp add: cn)
  qed
  have "Submit_iteration slim h sched ?start = Next () ?final"
    by (simp only: Submit_iteration_eq b step.case)
       (simp add: with_newline_lines scenario_client_def w [unfolded scenario_client_def])
  then have "Submit 1 slim h sched ?start = Next () ?final"
    by (simp add: Submit_def scenario_client_def)
  moreover have "Conn (cli ?final) = Some (cn\<lparr>wire := [''cpu.idle;host=a 1 1700000000'' @ [newline]
                             @ ''cpu.idle;host=a 2 1700000000'' @ [newline]]\<rparr>)"
    by (simp add: cpu_idle_line_def)
  moreover have "buf (queuedMetrics (cli ?final)) = [queued md ''3'' ts]" by simp
  ultimately show ?thesis using n s1 s2 s3 by blast
qed

lemma quiet_ok:
  "\<forall>k<2. arrivals (quiet k) = [] \<and> fires (quiet k) = None
      \<and> range_order (Tags cpu_idle) (order (quiet k))"
  by (simp add: quiet_def cpu_idle_def range_order_host_a)

theorem Submit_scenario_witness:
  "\<exists>c0 c1 c2 c3 r.
       NewClient 1000000 [WithMaxBufferSize 10, WithMaxMetricsPerMessage 2, WithMaxTries 1,
                      WithConnection (Some accepting)] = Ok c0
     \<and> SendMetric TakeChannel None c0 cpu_idle ''1'' at_1700000000 = Some (c1, None)
     \<and> SendMetric TakeChannel None c1 cpu_idle ''2'' at_1700000000 = Some (c2, None)
     \<and> SendMetric TakeChannel None c2 cpu_idle ''3'' at_1700000000 = Some (c3, None)
     \<and> Submit 1 1000000 cpu_idle_heap quiet \<lparr>cli = c3, token = None, selects = 0\<rparr> = Next () r
     \<and> Conn (cli r)
         = Some (accepting\<lparr>wire := [''cpu.idle;host=a 1 1700000000'' @ [newline]
                             @ ''cpu.idle;host=a 2 1700000000'' @ [newline]]\<rparr>)
     \<and> buf (queuedMetrics (cli r)) = [cpu_idle_sample ''3'']"
proof -
  have 1: "(10::int) \<le> 1000000" "(2::int) \<le> 1000000" by simp_all
  have 2: "wf_slice cpu_idle_heap (Name cpu_idle)"
    "slice_elems cpu_idle_heap (Name cpu_idle) = [''cpu'', ''idle'']"
    using cpu_idle_name_elems by (simp_all add: cpu_idle_def)
  have 3: "Tags cpu_idle = [''host'' \<mapsto> ''a'']" by (simp add: cpu_idle_def host_a_def)
  have 4: "Unix at_1700000000 = 1700000000" by (simp add: Unix_def at_1700000000_def)
  have 5: "wire accepting = []" "behaviour accepting 0 = WriteOk" by (simp_all add: accepting_def)
  have 6: "queued cpu_idle ''3'' at_1700000000 = cpu_idle_sample ''3''"
    by (simp add: queued_def cpu_idle_def cpu_idle_sample_def)
  from Submit_scenario [OF 1 2 3 4 5 quiet_ok, of TakeChannel TakeChannel TakeChannel]
  show ?thesis by (simp only: 6)
qed

lemma cpu_idle_sample_queued: "cpu_idle_sample v = queued cpu_idle v at_1700000000"
  by (simp add: queued_def cpu_idle_def cpu_idle_sample_def)

lemma three_queued_batch:
  "form_batch 1000000 cpu_idle_heap quiet \<lparr>cli = three_queued cn, token = None, selects = 0\<rparr>
     = Next [cpu_idle_line ''1'', cpu_idle_line ''2'']
         \<lparr>cli = (three_queued cn)\<lparr>queuedMetrics := \<lparr>buf = [cpu_idle_sample ''3''], chan_cap = 10\<rparr>\<rparr>,
          token = None, selects = 2\<rparr>"
proof -
  let ?start = "\<lparr>cli = three_queued cn, token = None, selects = 0\<rparr>"
  have q: "\<forall>k<2. arrivals (quiet k) = [] \<and> fires (quiet k) = None
      \<and> range_order host_a (order (quiet k))"
    by (simp add: quiet_def range_order_host_a)
  have md: "wf_slice cpu_idle_heap (Name cpu_idle)"
    "slice_elems cpu_idle_heap (Name cpu_idle) = [''cpu'', ''idle'']"
    "Tags cpu_idle = host_a" "Unix at_1700000000 = 1700000000"
    using cpu_idle_name_elems by (simp_all add: cpu_idle_def Unix_def at_1700000000_def)
  have "form_batch 1000000 cpu_idle_heap quiet ?start =
     Next [cpu_idle_line ''1'', cpu_idle_line ''2'']
       (?start\<lparr>cli := (cli ?start)\<lparr>queuedMetrics := (queuedMetrics (cli ?start))
            \<lparr>buf := [queued cpu_idle ''3'' at_1700000000]\<rparr>\<rparr>, selects := 2\<rparr>)"
    by (rule scenario_batch [OF q md])
       (simp_all add: three_queued_def scenario_client_def cpu_idle_sample_queued)
  then show ?thesis
    by (simp add: three_queued_def scenario_client_def cpu_idle_sample_queued)
qed

subsection \<open>Retries on the example streams\<close>

theorem SubmitMetricsString_retries_witness:
  "SubmitMetricsString (full_client\<lparr>Conn := Some flaky\<rparr>) ''x''
     = Inr (full_client\<lparr>Conn := Some (flaky\<lparr>wire := ['''', '''', ''x'' @ [newline]]\<rparr>)\<rparr>, None)
   \<and> SubmitMetricsString (full_client\<lparr>Conn := Some failing\<rparr>) ''x''
     = Inr (full_client\<lparr>Conn := Some (failing\<lparr>wire := ['''', '''', '''']\<rparr>)\<rparr>,
            Some (ErrAfterTries 3 (Some (WriteFailure ''broken pipe''))))
   \<and> Submit 5 1000000 cpu_idle_heap quiet \<lparr>cli = three_queued failing, token = None, selects = 0\<rparr>
     = Return (ErrSubmit (ErrAfterTries 1 (Some (WriteFailure ''broken pipe''))))
         \<lparr>cli = (three_queued (failing\<lparr>wire := ['''']\<rparr>))
                  \<lparr>queuedMetrics := \<lparr>buf = [cpu_idle_sample ''3''], chan_cap = 10\<rparr>\<rparr>,
          token = None, selects = 2\<rparr>
   \<and> SubmitMetricsString (full_client\<lparr>MaxTries := 0\<rparr>) ''x''
     = Inr (full_client\<lparr>MaxTries := 0\<rparr>, Some (ErrAfterTries 0 None))"
proof -
  let ?start = "\<lparr>cli = three_queued failing, token = None, selects = 0\<rparr>"
  have x: "with_newline ''x'' = ''x'' @ [newline]"
    by (simp add: with_newline_def HasSuffix_def newline_def)
  have a3: "attempts flaky p 3 = ['''', '''', p]" "attempts failing p 3 = ['''', '''', '''']"
    "attempts failing p 1 = ['''']" for p
    by (simp_all add: attempts_def taken_def flaky_def failing_def numeral_3_eq_3)
  have we: "write_error (behaviour failing k) = Some (WriteFailure ''broken pipe'')" for k
    by (simp add: failing_def write_error_def)
  have A: "SubmitMetricsString (full_client\<lparr>Conn := Some flaky\<rparr>) ''x''
     = Inr (full_client\<lparr>Conn := Some (flaky\<lparr>wire := ['''', '''', ''x'' @ [newline]]\<rparr>)\<rparr>, None)"
  proof -
    have "Conn (full_client\<lparr>Conn := Some flaky\<rparr>) = Some flaky
        \<and> int 2 < MaxTries (full_client\<lparr>Conn := Some flaky\<rparr>)
        \<and> behaviour flaky (length (wire flaky) + 2) = WriteOk
        \<and> (\<forall>t<2. behaviour flaky (length (wire flaky) + t) \<noteq> WriteOk)"
      by (simp add: full_client_def flaky_def)
    with SubmitMetricsString_retries [where c = "full_client\<lparr>Conn := Some flaky\<rparr>" and str = "''x''"
        and h = cpu_idle_heap and sched = quiet and r = ?start]
    have "SubmitMetricsString (full_client\<lparr>Conn := Some flaky\<rparr>) ''x''
        = Inr (full_client\<lparr>Conn := Some flaky\<rparr>\<lparr>Conn := Some (flaky\<lparr>wire := wire flaky
            @ attempts flaky (with_newline ''x'') (Suc 2)\<rparr>)\<rparr>, None)"
      by blast
    then show ?thesis using a3(1) [of "''x'' @ [newline]"] by (simp add: x flaky_def numeral_3_eq_3)
  qed
  have B: "SubmitMetricsString (full_client\<lparr>Conn := Some failing\<rparr>) ''x''
     = Inr (full_client\<lparr>Conn := Some (failing\<lparr>wire := ['''', '''', '''']\<rparr>)\<rparr>,
            Some (ErrAfterTries 3 (Some (WriteFailure ''broken pipe''))))"
  proof -
    have "Conn (full_client\<lparr>Conn := Some failing\<rparr>) = Some failing
        \<and> 0 < MaxTries (full_client\<lparr>Conn := Some failing\<rparr>)
        \<and> (\<forall>t. int t < MaxTries (full_client\<lparr>Conn := Some failing\<rparr>)
              \<longrightarrow> behaviour failing (length (wire failing) + t) \<noteq> WriteOk)"
      by (simp add: full_client_def failing_def)
    with SubmitMetricsString_retries [where c = "full_client\<lparr>Conn := Some failing\<rparr>" and str = "''x''"
        and h = cpu_idle_heap and sched = quiet and r = ?start]
    obtain e where "write_error (behaviour failing (length (wire failing)
          + nat (MaxTries (full_client\<lparr>Conn := Some failing\<rparr>)) - 1)) = Some (WriteFailure e)"
      "SubmitMetricsString (full_client\<lparr>Conn := Some failing\<rparr>) ''x''
        = Inr (full_client\<lparr>Conn := Some failing\<rparr>\<lparr>Conn := Some (failing\<lparr>wire := wire failing
            @ attempts failing (with_newline ''x'') (nat (MaxTries (full_client\<lparr>Conn := Some failing\<rparr>)))\<rparr>)\<rparr>,
            Some (ErrAfterTries (MaxTries (full_client\<lparr>Conn := Some failing\<rparr>)) (Some (WriteFailure e))))"
      by blast
    then show ?thesis using a3(2) by (simp add: we full_client_def failing_def write_error_def)
  qed
  have C: "Submit 5 1000000 cpu_idle_heap quiet ?start
     = Return (ErrSubmit (ErrAfterTries 1 (Some (WriteFailure ''broken pipe''))))
         \<lparr>cli = (three_queued (failing\<lparr>wire := ['''']\<rparr>))
                  \<lparr>queuedMetrics := \<lparr>buf = [cpu_idle_sample ''3''], chan_cap = 10\<rparr>\<rparr>,
          token = None, selects = 2\<rparr>"
  proof -
    let ?mid = "\<lparr>cli = (three_queued failing)\<lparr>queuedMetrics := \<lparr>buf = [cpu_idle_sample ''3''], chan_cap = 10\<rparr>\<rparr>,
          token = None, selects = 2\<rparr>"
    have "Submit 0 1000000 cpu_idle_heap quiet ?start = Next () ?start
        \<and> form_batch 1000000 cpu_idle_heap quiet ?start = Next [cpu_idle_line ''1'', cpu_idle_line ''2''] ?mid
        \<and> Conn (cli ?mid) = Some failing \<and> 0 < MaxTries (cli ?mid)
        \<and> (\<forall>t. int t < MaxTries (cli ?mid)
              \<longrightarrow> behaviour failing (length (wire failing) + t) \<noteq> WriteOk)"
      by (simp add: three_queued_batch)
         (simp add: Submit_def three_queued_def scenario_client_def failing_def)
    with SubmitMetricsString_retries [where c = "full_client" and str = "''x''"
        and h = cpu_idle_heap and sched = quiet and r = ?start]
    obtain e where "write_error (behaviour failing (length (wire failing)
          + nat (MaxTries (cli ?mid)) - 1)) = Some (WriteFailure e)"
      "Submit (0 + Suc 4) 1000000 cpu_idle_heap quiet ?start
        = Return (ErrSubmit (ErrAfterTries (MaxTries (cli ?mid)) (Some (WriteFailure e))))
                 (?mid\<lparr>cli := (cli ?mid)\<lparr>Conn := Some (failing\<lparr>wire := wire failing
                      @ attempts failing (with_newline (Join [cpu_idle_line ''1'', cpu_idle_line ''2''] [newline]))
                          (nat (MaxTries (cli ?mid)))\<rparr>)\<rparr>\<rparr>)"
      by blast
    moreover have "0 + Suc 4 = (5::nat)" by simp
    ultimately show ?thesis
      using a3(3)
      by (simp add: we three_queued_def scenario_client_def) (simp add: failing_def write_error_def)
  qed
  have D: "SubmitMetricsString (full_client\<lparr>MaxTries := 0\<rparr>) ''x''
     = Inr (full_client\<lparr>MaxTries := 0\<rparr>, Some (ErrAfterTries 0 None))"
  proof -
    have "Conn (full_client\<lparr>MaxTries := 0\<rparr>) = Some accepting
        \<and> MaxTries (full_client\<lparr>MaxTries := 0\<rparr>) \<le> 0"
      by (simp add: full_client_def)
    with SubmitMetricsString_retries [where c = "full_client\<lparr>MaxTries := 0\<rparr>" and str = "''x''"
        and h = cpu_idle_heap and sched = quiet and r = ?start]
    have "SubmitMetricsString (full_client\<lparr>MaxTries := 0\<rparr>) ''x''
        = Inr (full_client\<lparr>MaxTries := 0\<rparr>,
               Some (ErrAfterTries (MaxTries (full_client\<lparr>MaxTries := 0\<rparr>)) None))"
      by blast
    then show ?thesis by simp
  qed
  from A B C D show ?thesis by simp
qed

text \<open>
  A client made with \<open>MaxTries\<close> at \<open>-1\<close> on a stream that fails every write: no write
  is made, and the error carries \<open>-1\<close> and wraps no error of a write.
\<close>

theorem SubmitMetricsString_negative_tries:
  "NewClient 1000000 [WithMaxTries (- 1), WithConnection (Some failing)] = Ok negative_tries_client
   \<and> Conn negative_tries_client = Some failing \<and> wire failing = []
   \<and> SubmitMetricsString negative_tries_client ''x''
       = Inr (negative_tries_client, Some (ErrAfterTries (- 1) None))"
proof -
  have a: "apply_options [WithMaxTries (- 1), WithConnection (Some failing)]
     = \<lparr>MaxBufferSize = 0, MaxMetricsPerMessage = 0, MaxTries = - 1, Conn = Some failing,
        Addr = []\<rparr>"
    by (simp add: apply_options_def no_options_def WithMaxTries_def WithConnection_def)
  have n: "NewClient 1000000 [WithMaxTries (- 1), WithConnection (Some failing)]
     = Ok negative_tries_client"
    by (simp add: NewClient_cases a setDefaults_fields negative_tries_client_def)
  have w: "write_tries (- 1) 0 failing str None = (failing, Some (ErrAfterTries (- 1) None))" for str
    by (subst write_tries.simps) simp
  have c: "Conn negative_tries_client = Some failing" "MaxTries negative_tries_client = - 1"
    by (simp_all add: negative_tries_client_def)
  have "SubmitMetricsString negative_tries_client ''x''
       = Inr (negative_tries_client, Some (ErrAfterTries (- 1) None))"
    by (simp add: SubmitMetricsString_Some [OF c(1)] c(2) w) (simp add: negative_tries_client_def)
  with n c(1) show ?thesis by (simp add: failing_def)
qed


subsection \<open>The size of a batch\<close>

lemma first_select_Wait:
  "first_select h sched r strs = Wait \<longleftrightarrow>
     buf (queuedMetrics (cli (observe (sched (selects r)) r))) = []
     \<and> token (observe (sched (selects r)) r) = None"
  by (simp add: first_select_eq Let_def split: list.split option.split sum.split)

lemma form_batch_Wait:
  "form_batch slim h sched r = Wait \<longleftrightarrow>
     0 \<le> MaxMetricsPerMessage (cli r) \<and> MaxMetricsPerMessage (cli r) \<le> slim
     \<and> first_select h sched r [] = Wait"
  by (auto simp: form_batch_eq further_loop_not_Wait split: step.split)

text \<open>
  C6, as the code has it. Let \<open>N\<close> be the \<open>MaxMetricsPerMessage\<close> of the client; it is
  not 0 in a client made by \<open>NewClient\<close> (\<open>NewClient_limits\<close>). A batch that an
  iteration forms holds at least one sample and at most \<open>N\<close>. With \<open>N\<close> from 0 up to
  what the runtime can allocate, the first \<^verbatim>\<open>select\<close> waits exactly while the queue is
  empty and the token has not fired, and returns the cancellation error when the
  queue is empty and the token has fired. The inner loop never waits: where it finds
  the queue empty and the token not fired, it ends with the samples it has, and it
  receives at most \<open>N - 1\<close> samples. With a negative \<open>N\<close> (which is kept when the
  client is made) or one beyond what the runtime can allocate, the iteration panics
  when it makes \<open>metricStrings\<close>: it forms no batch, does not wait and returns no
  error.
\<close>

theorem form_batch_size:
  "(\<forall>strs r'. MaxMetricsPerMessage (cli r) \<noteq> 0 \<and> form_batch slim h sched r = Next strs r' \<longrightarrow>
        1 \<le> length strs \<and> int (length strs) \<le> MaxMetricsPerMessage (cli r)
        \<and> same_client r r')
   \<and> (form_batch slim h sched r = Wait \<longleftrightarrow>
        0 \<le> MaxMetricsPerMessage (cli r) \<and> MaxMetricsPerMessage (cli r) \<le> slim
        \<and> buf (queuedMetrics (cli (observe (sched (selects r)) r))) = []
        \<and> token (observe (sched (selects r)) r) = None)
   \<and> (\<forall>err. 0 \<le> MaxMetricsPerMessage (cli r) \<and> MaxMetricsPerMessage (cli r) \<le> slim
          \<and> buf (queuedMetrics (cli (observe (sched (selects r)) r))) = []
          \<and> token (observe (sched (selects r)) r) = Some err \<longrightarrow>
        form_batch slim h sched r
          = Return (ErrCancelledSubmitting err) (observe (sched (selects r)) r))
   \<and> (\<forall>i r1 strs. further_loop h sched N i r1 strs \<noteq> Wait)
   \<and> (\<forall>i r1 strs. i < N
          \<and> buf (queuedMetrics (cli (observe (sched (selects r1)) r1))) = []
          \<and> token (observe (sched (selects r1)) r1) = None \<longrightarrow>
        further_loop h sched N i r1 strs = Next strs (observe (sched (selects r1)) r1))
   \<and> (\<forall>r1 strs strs' r'. further_loop h sched N 1 r1 strs = Next strs' r' \<longrightarrow>
        length strs \<le> length strs' \<and> int (length strs') \<le> int (length strs) + max 0 (N - 1))
   \<and> (MaxMetricsPerMessage (cli r) < 0 \<or> slim < MaxMetricsPerMessage (cli r) \<longrightarrow>
        form_batch slim h sched r = Panic MakesliceCap)"
proof (intro conjI allI impI)
  fix strs r'
  assume a: "MaxMetricsPerMessage (cli r) \<noteq> 0 \<and> form_batch slim h sched r = Next strs r'"
  then have "form_batch slim h sched r = Next strs r'" by simp
  from form_batch_Next [OF this]
  have f: "same_client r r'" "1 \<le> length strs"
    "int (length strs) \<le> max 1 (MaxMetricsPerMessage (cli r))"
    "0 \<le> MaxMetricsPerMessage (cli r)"
    by simp_all
  show "1 \<le> length strs" by (rule f(2))
  show "same_client r r'" by (rule f(1))
  show "int (length strs) \<le> MaxMetricsPerMessage (cli r)" using f(3,4) a by linarith
next
  show "form_batch slim h sched r = Wait \<longleftrightarrow>
        0 \<le> MaxMetricsPerMessage (cli r) \<and> MaxMetricsPerMessage (cli r) \<le> slim
        \<and> buf (queuedMetrics (cli (observe (sched (selects r)) r))) = []
        \<and> token (observe (sched (selects r)) r) = None"
    by (simp only: form_batch_Wait first_select_Wait)
next
  fix err
  assume "0 \<le> MaxMetricsPerMessage (cli r) \<and> MaxMetricsPerMessage (cli r) \<le> slim
          \<and> buf (queuedMetrics (cli (observe (sched (selects r)) r))) = []
          \<and> token (observe (sched (selects r)) r) = Some err"
  then show "form_batch slim h sched r
          = Return (ErrCancelledSubmitting err) (observe (sched (selects r)) r)"
    by (simp add: form_batch_eq first_select_eq Let_def)
next
  fix i r1 strs
  show "further_loop h sched N i r1 strs \<noteq> Wait" by (rule further_loop_not_Wait)
next
  fix i r1 strs
  assume "i < N
          \<and> buf (queuedMetrics (cli (observe (sched (selects r1)) r1))) = []
          \<and> token (observe (sched (selects r1)) r1) = None"
  then show "further_loop h sched N i r1 strs = Next strs (observe (sched (selects r1)) r1)"
    by (subst further_loop_eq) (simp add: Let_def)
next
  fix r1 strs strs' r'
  assume "further_loop h sched N 1 r1 strs = Next strs' r'"
  from further_loop_Next [OF this]
  show "length strs \<le> length strs'" "int (length strs') \<le> int (length strs) + max 0 (N - 1)"
    by simp_all
next
  assume "MaxMetricsPerMessage (cli r) < 0 \<or> slim < MaxMetricsPerMessage (cli r)"
  then show "form_batch slim h sched r = Panic MakesliceCap" by (simp add: form_batch_eq)
qed

theorem form_batch_size_witness:
  "MaxMetricsPerMessage (three_queued accepting) \<noteq> 0
   \<and> form_batch 1000000 cpu_idle_heap quiet
        \<lparr>cli = three_queued accepting, token = None, selects = 0\<rparr>
     = Next [cpu_idle_line ''1'', cpu_idle_line ''2'']
         \<lparr>cli = (three_queued accepting)
                  \<lparr>queuedMetrics := \<lparr>buf = [cpu_idle_sample ''3''], chan_cap = 10\<rparr>\<rparr>,
          token = None, selects = 2\<rparr>
   \<and> 1 \<le> length [cpu_idle_line ''1'', cpu_idle_line ''2'']
   \<and> int (length [cpu_idle_line ''1'', cpu_idle_line ''2''])
       \<le> MaxMetricsPerMessage (three_queued accepting)"
proof -
  have n: "MaxMetricsPerMessage (three_queued accepting) \<noteq> 0"
    by (simp add: three_queued_def scenario_client_def)
  from form_batch_size [of "\<lparr>cli = three_queued accepting, token = None, selects = 0\<rparr>"
      1000000 cpu_idle_heap quiet 2] n three_queued_batch [of accepting]
  show ?thesis by simp
qed

text \<open>
  A client made with \<open>MaxMetricsPerMessage\<close> at \<open>-1\<close>, its queue empty: the iteration
  panics, whether the token has fired or not.
\<close>

theorem form_batch_negative_limit_panics:
  "NewClient 1000000 [WithMaxMetricsPerMessage (- 1), WithConnection (Some accepting)]
     = Ok negative_batch_client
   \<and> form_batch 1000000 cpu_idle_heap quiet
        \<lparr>cli = negative_batch_client, token = None, selects = 0\<rparr>
     = Panic MakesliceCap
   \<and> form_batch 1000000 cpu_idle_heap quiet
        \<lparr>cli = negative_batch_client, token = Some (CtxErr ''context canceled''), selects = 0\<rparr>
     = Panic MakesliceCap"
proof -
  have a: "apply_options [WithMaxMetricsPerMessage (- 1), WithConnection (Some accepting)]
     = \<lparr>MaxBufferSize = 0, MaxMetricsPerMessage = - 1, MaxTries = 0, Conn = Some accepting,
        Addr = []\<rparr>"
    by (simp add: apply_options_def no_options_def WithMaxMetricsPerMessage_def WithConnection_def)
  have n: "NewClient 1000000 [WithMaxMetricsPerMessage (- 1), WithConnection (Some accepting)]
     = Ok negative_batch_client"
    by (simp add: NewClient_cases a setDefaults_fields negative_batch_client_def)
  have m: "MaxMetricsPerMessage negative_batch_client = - 1"
    by (simp add: negative_batch_client_def)
  have "form_batch 1000000 cpu_idle_heap quiet \<lparr>cli = negative_batch_client, token = t, selects = 0\<rparr>
     = Panic MakesliceCap" for t
    by (simp add: form_batch_eq m)
  with n show ?thesis by simp
qed

section \<open>Properties of SubMetric\<close>

lemma length_slice_elems: "wf_slice h s \<Longrightarrow> length (slice_elems h s) = s_len s"
  by (cases "s_cap s = 0") (auto simp: wf_slice_def slice_elems_def)

lemma go_append_in_place:
  assumes "wf_slice h s" "s_len s < s_cap s" "go_append grow h s x = (h', s')"
  shows "slice_elems h' s' = slice_elems h s @ [x]" and "slice_elems h' s = slice_elems h s"
    and "wf_slice h' s'" and "s_arr s' = s_arr s" and "length h' = length h"
proof -
  let ?a = "h ! s_arr s"
  have arr: "s_arr s < length h" and fit: "s_off s + s_cap s \<le> length ?a"
    using assms(1,2) by (auto simp: wf_slice_def)
  have h': "h' = h[s_arr s := ?a[s_off s + s_len s := x]]" and s': "s' = s\<lparr>s_len := s_len s + 1\<rparr>"
    using assms(2,3) by (simp_all add: go_append_def)
  have at: "h' ! s_arr s = ?a[s_off s + s_len s := x]" using arr by (simp add: h')
  have d: "drop (s_off s) (?a[s_off s + s_len s := x]) = (drop (s_off s) ?a)[s_len s := x]"
    by (simp add: drop_update_swap)
  have l: "s_len s < length (drop (s_off s) ?a)" using fit assms(2) by simp
  show "slice_elems h' s' = slice_elems h s @ [x]"
    using l by (simp add: slice_elems_def s' at d take_Suc_conv_app_nth)
  show "slice_elems h' s = slice_elems h s"
    by (simp add: slice_elems_def at d)
  show "wf_slice h' s'" using assms(1,2) arr fit by (simp add: wf_slice_def s' h')
  show "s_arr s' = s_arr s" by (simp add: s')
  show "length h' = length h" by (simp add: h')
qed

lemma go_append_fresh:
  assumes "wf_slice h s" "\<not> s_len s < s_cap s" "go_append grow h s x = (h', s')"
  shows "slice_elems h' s' = slice_elems h s @ [x]" and "slice_elems h' s = slice_elems h s"
    and "wf_slice h' s'" and "s_arr s' = length h" and "take (length h) h' = h"
proof -
  let ?c = "max (s_len s + 1) (grow (s_cap s))"
  let ?new = "slice_elems h s @ x # replicate (?c - (s_len s + 1)) []"
  have h': "h' = h @ [?new]"
    and s': "s' = \<lparr>s_arr = length h, s_off = 0, s_len = s_len s + 1, s_cap = ?c\<rparr>"
    using assms(2,3) by (simp_all add: go_append_def Let_def)
  have len: "length (slice_elems h s) = s_len s" using assms(1) by (rule length_slice_elems)
  show "slice_elems h' s' = slice_elems h s @ [x]"
    unfolding slice_elems_def [of h' s'] by (simp add: s' h' len)
  show "slice_elems h' s = slice_elems h s"
  proof (cases "s_cap s = 0")
    case True
    then have "s_len s = 0" using assms(1) by (simp add: wf_slice_def)
    then show ?thesis by (simp add: slice_elems_def)
  next
    case False
    then have "s_arr s < length h" using assms(1) by (simp add: wf_slice_def)
    then show ?thesis by (simp add: slice_elems_def h' nth_append)
  qed
  show "wf_slice h' s'" by (simp add: wf_slice_def s' h' len)
  show "s_arr s' = length h" by (simp add: s')
  show "take (length h) h' = h" by (simp add: h')
qed

lemma SubMetric_value:
  assumes "wf_slice h (Name m)" "SubMetric grow ToLower h m name tgs = (h', child)"
  shows "slice_elems h' (Name child) = slice_elems h (Name m) @ [ToLower name]"
    and "Tags child = tgs"
    and "slice_elems h' (Name m) = slice_elems h (Name m)"
    and "wf_slice h' (Name child)"
proof -
  obtain s' where a: "go_append grow h (Name m) (ToLower name) = (h', s')"
    and c: "child = \<lparr>Name = s', Tags = tgs\<rparr>"
    using assms(2) by (auto simp: SubMetric_def split: prod.splits)
  show "Tags child = tgs" by (simp add: c)
  show "slice_elems h' (Name child) = slice_elems h (Name m) @ [ToLower name]"
    using go_append_in_place(1) [OF assms(1) _ a] go_append_fresh(1) [OF assms(1) _ a]
    by (cases "s_len (Name m) < s_cap (Name m)") (simp_all add: c)
  show "slice_elems h' (Name m) = slice_elems h (Name m)"
    using go_append_in_place(2) [OF assms(1) _ a] go_append_fresh(2) [OF assms(1) _ a]
    by (cases "s_len (Name m) < s_cap (Name m)") simp_all
  show "wf_slice h' (Name child)"
    using go_append_in_place(3) [OF assms(1) _ a] go_append_fresh(3) [OF assms(1) _ a]
    by (cases "s_len (Name m) < s_cap (Name m)") (simp_all add: c)
qed

lemma SubMetric_shares:
  assumes "wf_slice h (Name m)" "s_len (Name m) < s_cap (Name m)"
    and "SubMetric grow ToLower h m name tgs = (h', child)"
  shows "s_arr (Name child) = s_arr (Name m)"
proof -
  obtain s' where a: "go_append grow h (Name m) (ToLower name) = (h', s')"
    and c: "child = \<lparr>Name = s', Tags = tgs\<rparr>"
    using assms(3) by (auto simp: SubMetric_def split: prod.splits)
  from go_append_in_place(4) [OF assms(1,2) a] show ?thesis by (simp add: c)
qed

lemma ascii_ToLower_examples:
  "ascii_ToLower ''cpu0'' = ''cpu0''" "ascii_ToLower ''Nice'' = ''nice''"
  "ascii_ToLower ''System'' = ''system''"
  by code_simp+

text \<open>
  C4. \<open>SubMetric_value\<close> above is the part of the claim that holds: read right after the
  call, the name of the child is the name of the parent with the lower-cased segment
  appended, its tags are the map supplied, and the name of the parent reads as before.
  The child is not independent of the parent, though. When the name of the parent has
  spare capacity (\<open>SubMetric_shares\<close>), \<^verbatim>\<open>append\<close> writes the new segment into the
  backing array of the parent and the child is a slice of that array, so the next
  \<open>SubMetric\<close> on the same parent overwrites the last segment of the first child. The
  statement runs the calls of cmd/perf: \<^verbatim>\<open>cpu0\<close> is derived from
  \<^verbatim>\<open>["gopsutil", "cpu"]\<close>, then \<^verbatim>\<open>Nice\<close> and \<^verbatim>\<open>System\<close> are derived from the result.
  After the third call the name of the child made by the second reads
  \<^verbatim>\<open>gopsutil.cpu.cpu0.system\<close>, and so does the line of a sample queued with it.
\<close>

theorem SubMetric_siblings_share:
  "SubMetric doubling ascii_ToLower gopsutil_heap gopsutil_cpu ''cpu0'' host_a
     = ([[''gopsutil'', ''cpu''], [''gopsutil'', ''cpu'', ''cpu0'', '''']],
        \<lparr>Name = \<lparr>s_arr = 1, s_off = 0, s_len = 3, s_cap = 4\<rparr>, Tags = host_a\<rparr>)
   \<and> SubMetric doubling ascii_ToLower
         [[''gopsutil'', ''cpu''], [''gopsutil'', ''cpu'', ''cpu0'', '''']]
         \<lparr>Name = \<lparr>s_arr = 1, s_off = 0, s_len = 3, s_cap = 4\<rparr>, Tags = host_a\<rparr> ''Nice'' host_a
     = ([[''gopsutil'', ''cpu''], [''gopsutil'', ''cpu'', ''cpu0'', ''nice'']],
        \<lparr>Name = \<lparr>s_arr = 1, s_off = 0, s_len = 4, s_cap = 4\<rparr>, Tags = host_a\<rparr>)
   \<and> SubMetric doubling ascii_ToLower
         [[''gopsutil'', ''cpu''], [''gopsutil'', ''cpu'', ''cpu0'', ''nice'']]
         \<lparr>Name = \<lparr>s_arr = 1, s_off = 0, s_len = 3, s_cap = 4\<rparr>, Tags = host_a\<rparr> ''System'' host_a
     = ([[''gopsutil'', ''cpu''], [''gopsutil'', ''cpu'', ''cpu0'', ''system'']],
        \<lparr>Name = \<lparr>s_arr = 1, s_off = 0, s_len = 4, s_cap = 4\<rparr>, Tags = host_a\<rparr>)
   \<and> slice_elems [[''gopsutil'', ''cpu''], [''gopsutil'', ''cpu'', ''cpu0'', ''nice'']]
         \<lparr>s_arr = 1, s_off = 0, s_len = 4, s_cap = 4\<rparr>
     = [''gopsutil'', ''cpu'', ''cpu0'', ''nice'']
   \<and> slice_elems [[''gopsutil'', ''cpu''], [''gopsutil'', ''cpu'', ''cpu0'', ''system'']]
         \<lparr>s_arr = 1, s_off = 0, s_len = 4, s_cap = 4\<rparr>
     = [''gopsutil'', ''cpu'', ''cpu0'', ''system'']
   \<and> Metric_String [[''gopsutil'', ''cpu''], [''gopsutil'', ''cpu'', ''cpu0'', ''system'']]
         [(''host'', ''a'')]
         (queued \<lparr>Name = \<lparr>s_arr = 1, s_off = 0, s_len = 4, s_cap = 4\<rparr>, Tags = host_a\<rparr>
            ''5'' at_1700000000)
     = Inr ''gopsutil.cpu.cpu0.system;host=a 5 1700000000''"
proof -
  have "Metric_String [[''gopsutil'', ''cpu''], [''gopsutil'', ''cpu'', ''cpu0'', ''system'']]
         [(''host'', ''a'')]
         (queued \<lparr>Name = \<lparr>s_arr = 1, s_off = 0, s_len = 4, s_cap = 4\<rparr>, Tags = host_a\<rparr>
            ''5'' at_1700000000)
     = Inr ''gopsutil.cpu.cpu0.system;host=a 5 1700000000''"
    by (simp add: Metric_String_def slice_index_def slice_from_def slice_elems_def queued_def
        tag_clause_def Unix_def at_1700000000_def Sprint_int_1700000000)
  then show ?thesis
    by (simp add: SubMetric_def go_append_def doubling_def gopsutil_heap_def gopsutil_cpu_def
        slice_elems_def ascii_ToLower_examples Let_def)
qed

end
